(* ===== verification/Prelude.thy ===== *)
theory Prelude
  imports Complex_Main "HOL-Library.Word" "HOL-Library.Signed_Division" "HOL-Library.Multiset"
begin

text \<open>
  Shared vocabulary of the development: the Go types the program uses
  (\<open>time.Duration\<close>, \<open>float64\<close>, the float-to-duration conversion), the named
  collections of facts the component theories contribute to, and generic lemmas on
  lists and maps that the component proofs share.
\<close>

named_theorems ping_simps \<open>evaluation rules of the ping engine\<close>
named_theorems mtr_simps \<open>evaluation rules of the hop summary aggregator\<close>

section \<open>Go types\<close>

text \<open>
  \<open>time.Duration\<close> is a signed 64-bit count of nanoseconds. The sums the code forms
  are bounded by the attempt count times the timeout, far from \<open>2^63\<close>, so a duration
  is modelled as an unbounded \<open>int\<close>; the identifier allocator, whose wrap-around is
  part of its contract, is modelled at its width instead.
\<close>

type_synonym duration = int

definition Microsecond :: duration where
  "Microsecond = 1000"

text \<open>
  A Go \<open>float64\<close> quotient can be a number, NaN (\<open>0/0\<close>) or an infinity (a non-zero
  numerator over \<open>0\<close>). Only the quotient of two integers occurs in the code.
\<close>

datatype float64 = Num real | NaN | Inf bool

definition go_fdiv :: "int \<Rightarrow> int \<Rightarrow> float64" where
  "go_fdiv a b =
     (if b \<noteq> 0 then Num (of_int a / of_int b)
      else if a = 0 then NaN else Inf (0 < a))"

text \<open>
  \<open>time.Duration(f)\<close> for a \<open>float64\<close> \<open>f\<close> truncates towards zero.
\<close>

definition duration_of_float :: "real \<Rightarrow> duration" where
  "duration_of_float x = (if 0 \<le> x then \<lfloor>x\<rfloor> else - \<lfloor>- x\<rfloor>)"

text \<open>
  The run-time panics the modelled code can raise: a method call through a nil pointer,
  and \<open>close\<close> of a channel that is already closed.
\<close>

datatype go_panic = NilDereference | CloseOfClosedChannel

section \<open>Shared lemmas\<close>

lemma go_fdiv_nonzero [simp]: "b \<noteq> 0 \<Longrightarrow> go_fdiv a b = Num (of_int a / of_int b)"
  by (simp add: go_fdiv_def)

lemma go_fdiv_zero_zero [simp]: "go_fdiv 0 0 = NaN"
  by (simp add: go_fdiv_def)

lemma duration_of_float_of_int [simp]: "duration_of_float (of_int n) = n"
  by (simp add: duration_of_float_def)

lemma duration_of_float_zero [simp]: "duration_of_float 0 = 0"
  by (simp add: duration_of_float_def)

lemma duration_of_float_numeral [simp]: "duration_of_float (numeral n) = numeral n"
  by (simp add: duration_of_float_def)

lemma duration_of_float_nonneg: "0 \<le> x \<Longrightarrow> 0 \<le> duration_of_float x"
  by (simp add: duration_of_float_def)

lemma sum_list_nonneg_int: "\<forall>x\<in>set xs. 0 \<le> (x::int) \<Longrightarrow> 0 \<le> sum_list xs"
  by (induction xs) auto

lemma sum_list_map_nonneg: "\<forall>x\<in>set xs. 0 \<le> (f x::int) \<Longrightarrow> 0 \<le> (\<Sum>x\<leftarrow>xs. f x)"
  by (induction xs) auto

lemma map_upd_dom_mono: "dom m \<subseteq> dom (m(k \<mapsto> v))"
  by auto

lemma sdiv_nonneg_eq_div: "0 \<le> (a::int) \<Longrightarrow> 0 \<le> b \<Longrightarrow> a sdiv b = a div b"
  by (cases "a = 0"; cases "b = 0") (auto simp: signed_divide_int_def sgn_if)

lemma avg_trunc_bounds:
  fixes s k :: int
  assumes "0 \<le> s" "0 < k"
  shows "(s div 1000 div k * 1000) * k \<le> s \<and> s < (s div 1000 div k * 1000 + 1000) * k"
proof -
  let ?q = "s div 1000" let ?r = "?q div k"
  have e1: "?q * 1000 + s mod 1000 = s" by (rule div_mult_mod_eq)
  have "0 \<le> s mod 1000" "s mod 1000 < 1000" by simp_all
  with e1 have q: "?q * 1000 \<le> s" "s < ?q * 1000 + 1000" by linarith+
  have e2: "?r * k + ?q mod k = ?q" by (rule div_mult_mod_eq)
  have "0 \<le> ?q mod k" "?q mod k < k" using assms by simp_all
  with e2 have r: "?r * k \<le> ?q" "?q + 1 \<le> ?r * k + k" by linarith+
  then have "?r * k * 1000 \<le> ?q * 1000" "(?q + 1) * 1000 \<le> (?r * k + k) * 1000"
    by (simp_all only: mult_right_mono)
  moreover have "(?r * 1000) * k = ?r * k * 1000" "(?r * 1000 + 1000) * k = (?r * k + k) * 1000"
    "(?q + 1) * 1000 = ?q * 1000 + 1000"
    by (simp_all add: algebra_simps)
  ultimately show ?thesis using q by linarith
qed

end
