(* ===== verification/Ping.thy ===== *)
theory Ping
  imports Prelude
begin

text \<open>
  The ping statistics engine, \<open>src/pkg/ping/ping.go\<close>: one probe cycle of
  \<open>count\<close> echo attempts to one destination (\<open>runPing\<close>, with the wrapper \<open>Ping\<close>),
  reduced into a \<open>PingResult\<close>. The echo transport (\<open>icmp.Icmp\<close>) is an external
  collaborator: it is a parameter \<open>echo\<close> that answers the \<open>k\<close>-th call, given the
  request, with an error or an \<open>ICMPReturn\<close>; every behaviour of the network is one
  such function. The dispersion helpers of \<open>pkg/common\<close> are modelled from the spec.
  The loop also returns the trace of its observable actions (echo requests sent and
  sleeps), so that claims about sequence numbers and pacing are about the code.
\<close>

section \<open>Data\<close>

text \<open>\<open>icmp.ICMPReturn\<close> (spec-modelled: the transport's reply).\<close>

record icmp_return =
  icmp_Success :: bool
  icmp_Addr :: string
  icmp_Elapsed :: duration

text \<open>The pair \<open>(icmpReturn, err)\<close> of \<open>icmp.Icmp\<close>: \<open>Inl\<close> is a non-nil error.\<close>

type_synonym icmp_reply = "string + icmp_return"

text \<open>The arguments of one call \<open>icmp.Icmp(ip, srcAddr, ttl, pid, timeout, seq)\<close>.\<close>

record icmp_req =
  req_ip :: string
  req_src :: string
  req_ttl :: int
  req_id :: int
  req_timeout :: duration
  req_seq :: nat

type_synonym echo = "nat \<Rightarrow> icmp_req \<Rightarrow> icmp_reply"

datatype ping_event = Echo icmp_req | Sleep duration

text \<open>\<open>PingOptions\<close> and its getters (spec-modelled).\<close>

record PingOptions =
  opt_count :: int
  opt_timeout :: duration
  opt_interval :: duration

definition defaultTTL :: int where
  "defaultTTL = 64"

text \<open>\<open>common.IsEqualIP\<close> (spec-modelled): the two textual addresses denote the same IP.\<close>

definition IsEqualIP :: "string \<Rightarrow> string \<Rightarrow> bool" where
  "IsEqualIP a b \<longleftrightarrow> a = b"

text \<open>The loop's accumulator \<open>PingReturn\<close>; \<open>PingReturn{}\<close> is its zero value.\<close>

record PingReturn =
  allTime :: "duration list"
  succSum :: int
  worstTime :: duration
  bestTime :: duration
  sumTime :: duration
  avgTime :: duration
  success :: bool

definition empty_PingReturn :: PingReturn where
  "empty_PingReturn =
     \<lparr>allTime = [], succSum = 0, worstTime = 0, bestTime = 0, sumTime = 0, avgTime = 0,
      success = False\<rparr>"

record PingResult =
  DestAddr :: string
  DestIp :: string
  Success :: bool
  DropRate :: float64
  SumTime :: duration
  AvgTime :: duration
  BestTime :: duration
  WorstTime :: duration
  SquaredDeviationTime :: duration
  UncorrectedSDTime :: duration
  CorrectedSDTime :: duration
  RangeTime :: duration
  SntSummary :: int
  SntFailSummary :: int
  SntTimeSummary :: duration

section \<open>Dispersion helpers of pkg/common (spec-modelled)\<close>

definition TimeAvg :: "duration list \<Rightarrow> real" where
  "TimeAvg xs = of_int (sum_list xs) / of_nat (length xs)"

definition sq_dev_sum :: "duration list \<Rightarrow> real" where
  "sq_dev_sum xs = (\<Sum>x\<leftarrow>xs. (of_int x - TimeAvg xs)\<^sup>2)"

definition TimeSquaredDeviation :: "duration list \<Rightarrow> real" where
  "TimeSquaredDeviation xs = (if xs = [] then 0 else sq_dev_sum xs / of_nat (length xs))"

definition TimeUncorrectedDeviation :: "duration list \<Rightarrow> real" where
  "TimeUncorrectedDeviation xs = sqrt (TimeSquaredDeviation xs)"

definition TimeCorrectedDeviation :: "duration list \<Rightarrow> real" where
  "TimeCorrectedDeviation xs =
     (if length xs < 2 then 0 else sqrt (sq_dev_sum xs / of_nat (length xs - 1)))"

fun TimeRange :: "duration list \<Rightarrow> duration" where
  "TimeRange [] = 0"
| "TimeRange (x # xs) = fold max xs x - fold min xs x"

section \<open>The probe loop of runPing\<close>

text \<open>The request of one attempt (the call on line 66).\<close>

definition echo_req :: "string \<Rightarrow> string \<Rightarrow> int \<Rightarrow> duration \<Rightarrow> nat \<Rightarrow> icmp_req" where
  "echo_req ip srcAddr pid timeout seq =
     \<lparr>req_ip = ip, req_src = srcAddr, req_ttl = defaultTTL, req_id = pid,
      req_timeout = timeout, req_seq = seq\<rparr>"

text \<open>
  The guard on line 73: the attempt counts only if there is no error, the reply reports
  success and it comes from the destination; then its elapsed time is the sample.
\<close>

definition reply_sample :: "string \<Rightarrow> icmp_reply \<Rightarrow> duration option" where
  "reply_sample ip r =
     (case r of
        Inl err \<Rightarrow> None
      | Inr ret \<Rightarrow> if icmp_Success ret \<and> IsEqualIP ip (icmp_Addr ret)
                   then Some (icmp_Elapsed ret) else None)"

text \<open>The bookkeeping of one matching reply, lines 77--88.\<close>

definition record_sample :: "duration \<Rightarrow> PingReturn \<Rightarrow> PingReturn" where
  "record_sample e p =
     (let n = succSum p + 1;
          worst = (if worstTime p = 0 \<or> e > worstTime p then e else worstTime p);
          best = (if bestTime p = 0 \<or> e < bestTime p then e else bestTime p);
          s = sumTime p + e
      in p\<lparr>allTime := allTime p @ [e], succSum := n, worstTime := worst, bestTime := best,
           sumTime := s, avgTime := ((s sdiv Microsecond) sdiv n) * Microsecond,
           success := True\<rparr>)"

text \<open>
  The loop of lines 64--92: \<open>cnt\<close> counts the calls, \<open>n\<close> the calls left, \<open>seq\<close>
  the sequence number. A lost attempt \<open>continue\<close>s, skipping both \<open>seq++\<close> and
  \<open>time.Sleep(interval)\<close>, which the code places in the success branch.
\<close>

fun ping_loop ::
  "echo \<Rightarrow> string \<Rightarrow> string \<Rightarrow> int \<Rightarrow> duration \<Rightarrow> duration \<Rightarrow> nat \<Rightarrow> nat \<Rightarrow> nat \<Rightarrow>
   PingReturn \<Rightarrow> PingReturn \<times> ping_event list" where
  "ping_loop echo ip srcAddr pid timeout interval cnt 0 seq p = (p, [])"
| "ping_loop echo ip srcAddr pid timeout interval cnt (Suc n) seq p =
     (let req = echo_req ip srcAddr pid timeout seq in
      case reply_sample ip (echo cnt req) of
        None \<Rightarrow>
          (let (p', evs) = ping_loop echo ip srcAddr pid timeout interval (Suc cnt) n seq p
           in (p', Echo req # evs))
      | Some e \<Rightarrow>
          (let (p', evs) =
             ping_loop echo ip srcAddr pid timeout interval (Suc cnt) n (Suc seq) (record_sample e p)
           in (p', Echo req # Sleep interval # evs)))"

text \<open>\<open>runPing\<close>, lines 53--109. Its error result is the constant \<open>nil\<close> (line 108).\<close>

definition runPing ::
  "echo \<Rightarrow> string \<Rightarrow> string \<Rightarrow> string \<Rightarrow> int \<Rightarrow> PingOptions \<Rightarrow> PingResult \<times> ping_event list" where
  "runPing echo ipAddr ip srcAddr icmpID opt =
     (let c = opt_count opt;
          (p, evs) = ping_loop echo ip srcAddr icmpID (opt_timeout opt) (opt_interval opt)
                       0 (nat c) 0 empty_PingReturn
      in (\<lparr>DestAddr = ipAddr, DestIp = ip, Success = success p,
           DropRate = go_fdiv (c - succSum p) c,
           SumTime = sumTime p, AvgTime = avgTime p, BestTime = bestTime p,
           WorstTime = worstTime p,
           SquaredDeviationTime = duration_of_float (TimeSquaredDeviation (allTime p)),
           UncorrectedSDTime = duration_of_float (TimeUncorrectedDeviation (allTime p)),
           CorrectedSDTime = duration_of_float (TimeCorrectedDeviation (allTime p)),
           RangeTime = TimeRange (allTime p),
           SntSummary = c, SntFailSummary = c - succSum p,
           SntTimeSummary = TimeRange (allTime p)\<rparr>, evs))"

text \<open>\<open>Ping\<close>, lines 13--26: fills the options and runs the cycle.\<close>

definition Ping ::
  "echo \<Rightarrow> string \<Rightarrow> string \<Rightarrow> string \<Rightarrow> int \<Rightarrow> duration \<Rightarrow> duration \<Rightarrow> int \<Rightarrow>
   PingResult \<times> ping_event list" where
  "Ping echo addr ip srcAddr n_count interval timeout icmpID =
     runPing echo addr ip srcAddr icmpID
       \<lparr>opt_count = n_count, opt_timeout = timeout, opt_interval = interval\<rparr>"

text \<open>
  The summary line of \<open>PingString\<close> (line 42): the three values printed after
  \<open>rtt min/avg/max =\<close>, in the order the code passes them.
\<close>

definition PingString_rtt :: "PingResult \<Rightarrow> duration \<times> duration \<times> duration" where
  "PingString_rtt r = (WorstTime r, AvgTime r, BestTime r)"

section \<open>Reference model of one cycle\<close>

text \<open>
  The attempts of one cycle as a transcript: each request sent and the sample it gave
  (\<open>None\<close> for a lost attempt). The control flow of the loop depends only on the
  transport's answers, not on the accumulator, so the loop is the transcript followed
  by a fold of the per-sample bookkeeping; \<open>ping_loop_attempts\<close> below proves it.
\<close>

fun attempts ::
  "echo \<Rightarrow> string \<Rightarrow> string \<Rightarrow> int \<Rightarrow> duration \<Rightarrow> nat \<Rightarrow> nat \<Rightarrow> nat \<Rightarrow>
   (icmp_req \<times> duration option) list" where
  "attempts echo ip srcAddr pid timeout cnt 0 seq = []"
| "attempts echo ip srcAddr pid timeout cnt (Suc n) seq =
     (let req = echo_req ip srcAddr pid timeout seq; r = reply_sample ip (echo cnt req)
      in (req, r) # attempts echo ip srcAddr pid timeout (Suc cnt) n
                      (case r of None \<Rightarrow> seq | Some e \<Rightarrow> Suc seq))"

fun samples_of :: "('q \<times> duration option) list \<Rightarrow> duration list" where
  "samples_of [] = []"
| "samples_of ((q, None) # xs) = samples_of xs"
| "samples_of ((q, Some e) # xs) = e # samples_of xs"

fun events_of :: "duration \<Rightarrow> (icmp_req \<times> duration option) list \<Rightarrow> ping_event list" where
  "events_of iv [] = []"
| "events_of iv ((q, None) # xs) = Echo q # events_of iv xs"
| "events_of iv ((q, Some e) # xs) = Echo q # Sleep iv # events_of iv xs"

text \<open>The transcript of a whole \<open>runPing\<close> cycle.\<close>

definition cycle_attempts :: "echo \<Rightarrow> string \<Rightarrow> string \<Rightarrow> int \<Rightarrow> PingOptions \<Rightarrow>
   (icmp_req \<times> duration option) list" where
  "cycle_attempts echo ip srcAddr icmpID opt =
     attempts echo ip srcAddr icmpID (opt_timeout opt) 0 (nat (opt_count opt)) 0"

text \<open>
  What a cycle promises (spec section 4.2), computed at once from the samples: the
  statistics over the sample set, the drop rate, and cumulative counters in which the
  time counter is the total elapsed time of the cycle.
\<close>

definition ping_stats :: "string \<Rightarrow> string \<Rightarrow> int \<Rightarrow> duration list \<Rightarrow> PingResult" where
  "ping_stats ipAddr ip c S =
     \<lparr>DestAddr = ipAddr, DestIp = ip, Success = (S \<noteq> []),
      DropRate = go_fdiv (c - int (length S)) c,
      SumTime = sum_list S,
      AvgTime = (if S = [] then 0
                 else ((sum_list S sdiv Microsecond) sdiv int (length S)) * Microsecond),
      BestTime = (if S = [] then 0 else Min (set S)),
      WorstTime = (if S = [] then 0 else Max (set S)),
      SquaredDeviationTime = duration_of_float (TimeSquaredDeviation S),
      UncorrectedSDTime = duration_of_float (TimeUncorrectedDeviation S),
      CorrectedSDTime = duration_of_float (TimeCorrectedDeviation S),
      RangeTime = TimeRange S,
      SntSummary = c, SntFailSummary = c - int (length S),
      SntTimeSummary = sum_list S\<rparr>"

text \<open>The echo requests and the sleeps of an event trace, in order.\<close>

fun sent_requests :: "ping_event list \<Rightarrow> icmp_req list" where
  "sent_requests [] = []"
| "sent_requests (Echo q # evs) = q # sent_requests evs"
| "sent_requests (Sleep d # evs) = sent_requests evs"

fun sleeps :: "ping_event list \<Rightarrow> duration list" where
  "sleeps [] = []"
| "sleeps (Echo q # evs) = sleeps evs"
| "sleeps (Sleep d # evs) = d # sleeps evs"

text \<open>A network that answers every request from \<open>ip\<close>, the \<open>k\<close>-th after \<open>f k\<close>.\<close>

definition answer_all :: "string \<Rightarrow> (nat \<Rightarrow> duration) \<Rightarrow> echo" where
  "answer_all ip f = (\<lambda>cnt req. Inr \<lparr>icmp_Success = True, icmp_Addr = ip, icmp_Elapsed = f cnt\<rparr>)"

text \<open>A matching reply from \<open>ip\<close> after \<open>e\<close> nanoseconds.\<close>

definition ok_reply :: "string \<Rightarrow> duration \<Rightarrow> icmp_reply" where
  "ok_reply ip e = Inr \<lparr>icmp_Success = True, icmp_Addr = ip, icmp_Elapsed = e\<rparr>"

text \<open>A scripted network: the \<open>k\<close>-th call gets the \<open>k\<close>-th reply of the list, later calls time out.\<close>

definition scripted :: "icmp_reply list \<Rightarrow> echo" where
  "scripted rs = (\<lambda>cnt req. if cnt < length rs then rs ! cnt else Inl ''timeout'')"

text \<open>The samples of a whole cycle.\<close>

abbreviation cycle_samples :: "echo \<Rightarrow> string \<Rightarrow> string \<Rightarrow> int \<Rightarrow> PingOptions \<Rightarrow> duration list" where
  "cycle_samples echo ip srcAddr icmpID opt \<equiv> samples_of (cycle_attempts echo ip srcAddr icmpID opt)"

section \<open>The loop is the transcript followed by a fold\<close>

lemma ping_loop_attempts:
  "ping_loop echo ip srcAddr pid timeout interval cnt n seq p =
     (let A = attempts echo ip srcAddr pid timeout cnt n seq
      in (fold record_sample (samples_of A) p, events_of interval A))"
  by (induction n arbitrary: cnt seq p) (auto simp: Let_def split: option.splits prod.splits)

lemma length_attempts [simp]: "length (attempts echo ip srcAddr pid timeout cnt n seq) = n"
  by (induction n arbitrary: cnt seq) (simp_all add: Let_def)

lemma length_samples_of_le: "length (samples_of xs) \<le> length xs"
  by (induction xs rule: samples_of.induct) auto

lemma fold_record_sample_allTime [simp]:
  "allTime (fold record_sample es p) = allTime p @ es"
  by (induction es arbitrary: p) (simp_all add: record_sample_def Let_def)

lemma fold_record_sample_succSum [simp]:
  "succSum (fold record_sample es p) = succSum p + int (length es)"
  by (induction es arbitrary: p) (simp_all add: record_sample_def Let_def)

lemma fold_record_sample_sumTime [simp]:
  "sumTime (fold record_sample es p) = sumTime p + sum_list es"
  by (induction es arbitrary: p) (simp_all add: record_sample_def Let_def algebra_simps)

lemma fold_record_sample_success [simp]:
  "success (fold record_sample es p) = (success p \<or> es \<noteq> [])"
  by (induction es arbitrary: p) (simp_all add: record_sample_def Let_def)

lemma fold_record_sample_worst:
  "0 \<le> worstTime p \<Longrightarrow> \<forall>e\<in>set es. 0 < e \<Longrightarrow>
   worstTime (fold record_sample es p) = fold max es (worstTime p)"
  by (induction es arbitrary: p) (auto simp: record_sample_def Let_def max_def)

lemma fold_record_sample_best:
  "0 < bestTime p \<Longrightarrow> \<forall>e\<in>set es. 0 < e \<Longrightarrow>
   bestTime (fold record_sample es p) = fold min es (bestTime p)"
  by (induction es arbitrary: p) (auto simp: record_sample_def Let_def min_def)

lemma fold_record_sample_avg:
  "es \<noteq> [] \<Longrightarrow> avgTime (fold record_sample es p) =
     ((sumTime p + sum_list es) sdiv Microsecond sdiv (succSum p + int (length es))) * Microsecond"
proof (induction es arbitrary: p)
  case Nil then show ?case by simp
next
  case (Cons e es)
  show ?case
  proof (cases "es = []")
    case True then show ?thesis by (simp add: record_sample_def Let_def)
  next
    case False
    with Cons.IH[of "record_sample e p"] show ?thesis
      by (simp add: record_sample_def Let_def algebra_simps)
  qed
qed

lemma fold_max_pos: "\<forall>e\<in>set (x # xs). 0 < e \<Longrightarrow> fold max (x # xs) (0::int) = Max (set (x # xs))"
proof -
  assume "\<forall>e\<in>set (x # xs). 0 < e"
  then have "max x 0 = x" by simp
  then show ?thesis using Max.set_eq_fold [of x xs] by simp
qed

lemma fold_record_sample_best_nonneg:
  "0 \<le> bestTime p \<Longrightarrow> \<forall>e\<in>set es. 0 \<le> e \<Longrightarrow> 0 \<le> bestTime (fold record_sample es p)"
  by (induction es arbitrary: p) (auto simp: record_sample_def Let_def)

lemma fold_record_sample_best_unset:
  assumes "bestTime p = 0" "es \<noteq> []" "\<forall>e\<in>set es. 0 < e"
  shows "bestTime (fold record_sample es p) = Min (set es)"
proof (cases es)
  case (Cons x xs)
  with assms have "bestTime (record_sample x p) = x" "0 < x"
    by (simp_all add: record_sample_def Let_def)
  with Cons assms(3) show ?thesis
    using Min.set_eq_fold [of x xs] by (simp add: fold_record_sample_best)
qed (use assms in simp)

lemma runPing_unfold:
  "runPing echo ipAddr ip srcAddr icmpID opt =
     (let A = cycle_attempts echo ip srcAddr icmpID opt;
          p = fold record_sample (samples_of A) empty_PingReturn; c = opt_count opt
      in (\<lparr>DestAddr = ipAddr, DestIp = ip, Success = success p,
           DropRate = go_fdiv (c - succSum p) c,
           SumTime = sumTime p, AvgTime = avgTime p, BestTime = bestTime p,
           WorstTime = worstTime p,
           SquaredDeviationTime = duration_of_float (TimeSquaredDeviation (allTime p)),
           UncorrectedSDTime = duration_of_float (TimeUncorrectedDeviation (allTime p)),
           CorrectedSDTime = duration_of_float (TimeCorrectedDeviation (allTime p)),
           RangeTime = TimeRange (allTime p),
           SntSummary = c, SntFailSummary = c - succSum p,
           SntTimeSummary = TimeRange (allTime p)\<rparr>, events_of (opt_interval opt) A))"
  by (simp add: runPing_def ping_loop_attempts cycle_attempts_def Let_def)

lemma runPing_events:
  "snd (runPing echo ipAddr ip srcAddr icmpID opt) =
     events_of (opt_interval opt) (cycle_attempts echo ip srcAddr icmpID opt)"
  by (simp add: runPing_unfold Let_def)

lemma attempts_seq:
  "i < n \<Longrightarrow> req_seq (fst (attempts echo ip srcAddr pid timeout cnt n seq ! i)) =
     seq + length (samples_of (take i (attempts echo ip srcAddr pid timeout cnt n seq)))"
proof (induction n arbitrary: cnt seq i)
  case 0 then show ?case by simp
next
  case (Suc n)
  show ?case
  proof (cases i)
    case 0 then show ?thesis by (simp add: Let_def echo_req_def)
  next
    case (Suc j)
    with Suc.prems Suc.IH show ?thesis
      by (auto simp: Let_def split: option.splits)
  qed
qed

lemma runPing_stats_eq:
  assumes pos: "\<forall>e\<in>set (samples_of (cycle_attempts echo ip srcAddr icmpID opt)). 0 < e"
  shows "fst (runPing echo ipAddr ip srcAddr icmpID opt) =
    (ping_stats ipAddr ip (opt_count opt) (samples_of (cycle_attempts echo ip srcAddr icmpID opt)))
      \<lparr>SntTimeSummary := TimeRange (samples_of (cycle_attempts echo ip srcAddr icmpID opt))\<rparr>"
proof (cases "samples_of (cycle_attempts echo ip srcAddr icmpID opt)")
  case Nil
  then show ?thesis
    by (simp add: runPing_unfold ping_stats_def empty_PingReturn_def Let_def)
next
  case (Cons x xs)
  let ?S = "samples_of (cycle_attempts echo ip srcAddr icmpID opt)"
  have w: "worstTime (fold record_sample ?S empty_PingReturn) = Max (set ?S)"
    using pos Cons by (simp add: fold_record_sample_worst empty_PingReturn_def fold_max_pos del: fold.simps)
  have b: "bestTime (fold record_sample ?S empty_PingReturn) = Min (set ?S)"
    using pos Cons by (simp add: fold_record_sample_best_unset empty_PingReturn_def del: fold.simps)
  have a: "avgTime (fold record_sample ?S empty_PingReturn) =
      (sum_list ?S sdiv Microsecond sdiv int (length ?S)) * Microsecond"
    using Cons by (simp add: fold_record_sample_avg empty_PingReturn_def del: fold.simps)
  show ?thesis
    using Cons w b a by (simp add: runPing_unfold ping_stats_def Let_def empty_PingReturn_def del: fold.simps)
qed

section \<open>Evaluation and helper lemmas\<close>

lemma sent_requests_events [simp]: "sent_requests (events_of iv A) = map fst A"
  by (induction iv A rule: events_of.induct) auto

lemma sleeps_events [simp]: "sleeps (events_of iv A) = replicate (length (samples_of A)) iv"
  by (induction iv A rule: events_of.induct) auto

lemma length_cycle_attempts [simp]:
  "length (cycle_attempts echo ip srcAddr icmpID opt) = nat (opt_count opt)"
  by (simp add: cycle_attempts_def)

lemma samples_of_all_lost:
  "\<forall>k q. reply_sample ip (echo k q) = None \<Longrightarrow>
   samples_of (attempts echo ip srcAddr pid timeout cnt n seq) = []"
  by (induction n arbitrary: cnt seq) (simp_all add: Let_def)

lemma samples_of_answer_all:
  "samples_of (attempts (answer_all ip f) ip srcAddr pid timeout cnt n seq) = map f [cnt..<cnt + n]"
  by (induction n arbitrary: cnt seq)
     (simp_all add: Let_def answer_all_def reply_sample_def IsEqualIP_def upt_rec)

lemma runPing_fields:
  "SumTime (fst (runPing echo ipAddr ip srcAddr icmpID opt)) = sum_list (cycle_samples echo ip srcAddr icmpID opt)"
  "Success (fst (runPing echo ipAddr ip srcAddr icmpID opt)) = (cycle_samples echo ip srcAddr icmpID opt \<noteq> [])"
  "DropRate (fst (runPing echo ipAddr ip srcAddr icmpID opt)) =
     go_fdiv (opt_count opt - int (length (cycle_samples echo ip srcAddr icmpID opt))) (opt_count opt)"
  "RangeTime (fst (runPing echo ipAddr ip srcAddr icmpID opt)) = TimeRange (cycle_samples echo ip srcAddr icmpID opt)"
  "SntTimeSummary (fst (runPing echo ipAddr ip srcAddr icmpID opt)) = TimeRange (cycle_samples echo ip srcAddr icmpID opt)"
  "SntSummary (fst (runPing echo ipAddr ip srcAddr icmpID opt)) = opt_count opt"
  "SntFailSummary (fst (runPing echo ipAddr ip srcAddr icmpID opt)) =
     opt_count opt - int (length (cycle_samples echo ip srcAddr icmpID opt))"
  "SquaredDeviationTime (fst (runPing echo ipAddr ip srcAddr icmpID opt)) =
     duration_of_float (TimeSquaredDeviation (cycle_samples echo ip srcAddr icmpID opt))"
  "UncorrectedSDTime (fst (runPing echo ipAddr ip srcAddr icmpID opt)) =
     duration_of_float (TimeUncorrectedDeviation (cycle_samples echo ip srcAddr icmpID opt))"
  "CorrectedSDTime (fst (runPing echo ipAddr ip srcAddr icmpID opt)) =
     duration_of_float (TimeCorrectedDeviation (cycle_samples echo ip srcAddr icmpID opt))"
  by (simp_all add: runPing_unfold Let_def empty_PingReturn_def del: fold.simps)

lemma runPing_AvgTime:
  "AvgTime (fst (runPing echo ipAddr ip srcAddr icmpID opt)) =
     (if cycle_samples echo ip srcAddr icmpID opt = [] then 0
      else (sum_list (cycle_samples echo ip srcAddr icmpID opt) sdiv Microsecond sdiv
              int (length (cycle_samples echo ip srcAddr icmpID opt))) * Microsecond)"
proof (cases "cycle_samples echo ip srcAddr icmpID opt = []")
  case True then show ?thesis by (simp add: runPing_unfold Let_def empty_PingReturn_def)
next
  case False then show ?thesis
    by (simp add: runPing_unfold Let_def empty_PingReturn_def fold_record_sample_avg del: fold.simps)
qed

lemma length_cycle_samples_le: "int (length (cycle_samples echo ip srcAddr icmpID opt)) \<le> max 0 (opt_count opt)"
  using length_samples_of_le [of "cycle_attempts echo ip srcAddr icmpID opt"] by simp

text \<open>C2: The sequence number of the i-th echo request of a cycle is the number of attempts before it that got a matching reply: it starts at 0 and advances only on success (spec section 8: fail, succeed, fail, succeed sends 0, 0, 1, 1).\<close>

theorem runPing_seq:
  assumes "i < length (sent_requests (snd (runPing echo ipAddr ip srcAddr icmpID opt)))"
  shows "req_seq (sent_requests (snd (runPing echo ipAddr ip srcAddr icmpID opt)) ! i) =
         length (samples_of (take i (cycle_attempts echo ip srcAddr icmpID opt)))"
  using assms attempts_seq [of i "nat (opt_count opt)" echo ip srcAddr icmpID "opt_timeout opt" 0 0]
  by (simp add: runPing_events cycle_attempts_def)

theorem runPing_seq_witness:
  "2 < length (sent_requests (snd (runPing (scripted [Inl ''timeout'', ok_reply ''10.0.0.1'' 5000000, Inl ''timeout'', ok_reply ''10.0.0.1'' 5000000])
      ''h'' ''10.0.0.1'' '''' 7 \<lparr>opt_count = 4, opt_timeout = 1000000000, opt_interval = 1000000000\<rparr>))) \<and>
   req_seq (sent_requests (snd (runPing (scripted [Inl ''timeout'', ok_reply ''10.0.0.1'' 5000000, Inl ''timeout'', ok_reply ''10.0.0.1'' 5000000])
      ''h'' ''10.0.0.1'' '''' 7 \<lparr>opt_count = 4, opt_timeout = 1000000000, opt_interval = 1000000000\<rparr>)) ! 2) = 1"
  using runPing_seq [of 2 "(scripted [Inl ''timeout'', ok_reply ''10.0.0.1'' 5000000, Inl ''timeout'', ok_reply ''10.0.0.1'' 5000000])"
      "''h''" "''10.0.0.1''" "''''" 7 "\<lparr>opt_count = 4, opt_timeout = 1000000000, opt_interval = 1000000000\<rparr>"]
  by (simp add: runPing_events cycle_attempts_def answer_all_def reply_sample_def IsEqualIP_def numeral_eq_Suc Let_def scripted_def ok_reply_def)

text \<open>C3: A cycle sleeps once per matching reply and never after a lost attempt: the sleeps of the trace are exactly one interval per sample. (The spec says the engine sleeps after every attempt.)\<close>

theorem runPing_sleeps:
  "sleeps (snd (runPing echo ipAddr ip srcAddr icmpID opt)) =
     replicate (length (cycle_samples echo ip srcAddr icmpID opt)) (opt_interval opt)"
  by (simp add: runPing_events)

text \<open>C4: For a positive attempt count the drop rate is the finite number (count - successes) / count, and it lies in [0, 1].\<close>

theorem runPing_drop_rate:
  assumes "0 < opt_count opt"
  shows "let d = (of_int (opt_count opt) - of_nat (length (cycle_samples echo ip srcAddr icmpID opt)))
                 / of_int (opt_count opt) :: real
         in DropRate (fst (runPing echo ipAddr ip srcAddr icmpID opt)) = Num d \<and> 0 \<le> d \<and> d \<le> 1"
proof -
  let ?K = "length (cycle_samples echo ip srcAddr icmpID opt)" and ?c = "opt_count opt"
  have K: "int ?K \<le> ?c" using length_cycle_samples_le [of echo ip srcAddr icmpID opt] assms by simp
  then have "(of_int ?c - of_nat ?K) / of_int ?c \<le> (1::real)" using assms by (simp add: divide_le_eq_1)
  moreover have "0 \<le> (of_int ?c - of_nat ?K) / (of_int ?c :: real)" using K assms by simp
  ultimately show ?thesis using assms by (simp add: runPing_fields Let_def)
qed

theorem runPing_drop_rate_witness:
  "let opt = \<lparr>opt_count = 4, opt_timeout = 1000000000, opt_interval = 1000000000\<rparr>;
       echo = (scripted [Inl ''timeout'', ok_reply ''10.0.0.1'' 5000000, Inl ''timeout'', ok_reply ''10.0.0.1'' 5000000])
   in 0 < opt_count opt \<and> DropRate (fst (runPing echo ''h'' ''10.0.0.1'' '''' 7 opt)) = Num (1/2)"
proof -
  let ?opt = "\<lparr>opt_count = 4, opt_timeout = 1000000000, opt_interval = 1000000000\<rparr> :: PingOptions"
  let ?echo = "(scripted [Inl ''timeout'', ok_reply ''10.0.0.1'' 5000000, Inl ''timeout'', ok_reply ''10.0.0.1'' 5000000])"
  have "length (cycle_samples ?echo ''10.0.0.1'' '''' 7 ?opt) = 2"
    by (simp add: cycle_attempts_def answer_all_def reply_sample_def IsEqualIP_def numeral_eq_Suc Let_def scripted_def ok_reply_def)
  then show ?thesis using runPing_drop_rate [of ?opt ?echo "''10.0.0.1''" "''''" 7 "''h''"] by (simp add: Let_def)
qed

lemma funpow_max_self: "(max L ^^ n) (L::int) = L"
  by (induction n) auto

lemma funpow_min_self: "(min L ^^ n) (L::int) = L"
  by (induction n) auto

lemma TimeRange_replicate [simp]: "TimeRange (replicate n L) = 0"
  by (cases n) (simp_all add: funpow_max_self funpow_min_self)

lemma TimeAvg_replicate: "0 < n \<Longrightarrow> TimeAvg (replicate n L) = of_int L"
  by (simp add: TimeAvg_def sum_list_replicate)

lemma sq_dev_sum_replicate [simp]: "sq_dev_sum (replicate n L) = 0"
  by (cases "n = 0") (simp_all add: sq_dev_sum_def TimeAvg_replicate sum_list_replicate)

lemma dispersion_Nil [simp]:
  "TimeSquaredDeviation [] = 0" "TimeUncorrectedDeviation [] = 0" "TimeCorrectedDeviation [] = 0"
  by (simp_all add: TimeSquaredDeviation_def TimeUncorrectedDeviation_def TimeCorrectedDeviation_def)

lemma dispersion_replicate [simp]:
  "TimeSquaredDeviation (replicate n L) = 0"
  "TimeUncorrectedDeviation (replicate n L) = 0"
  "TimeCorrectedDeviation (replicate n L) = 0"
  by (simp_all add: TimeSquaredDeviation_def TimeUncorrectedDeviation_def TimeCorrectedDeviation_def)

lemma cycle_samples_answer_all:
  "cycle_samples (answer_all ip (\<lambda>_. L)) ip srcAddr icmpID opt = replicate (nat (opt_count opt)) L"
  by (simp add: cycle_attempts_def samples_of_answer_all map_replicate_const)

text \<open>C6: When every attempt is answered after the same latency L > 0, the drop rate is 0, best and worst are L, the average is L truncated to microseconds, and every dispersion statistic and the range are 0.\<close>

theorem runPing_uniform_latency:
  assumes "0 < opt_count opt" "0 < L"
  shows "let r = fst (runPing (answer_all ip (\<lambda>_. L)) ipAddr ip srcAddr icmpID opt) in
    DropRate r = Num 0 \<and> BestTime r = L \<and> WorstTime r = L \<and>
    AvgTime r = L div Microsecond * Microsecond \<and> SquaredDeviationTime r = 0 \<and>
    UncorrectedSDTime r = 0 \<and> CorrectedSDTime r = 0 \<and> RangeTime r = 0"
proof -
  let ?n = "nat (opt_count opt)"
  have n: "0 < ?n" using assms by simp
  have S: "cycle_samples (answer_all ip (\<lambda>_. L)) ip srcAddr icmpID opt = replicate ?n L"
    by (rule cycle_samples_answer_all)
  have avg: "int ?n * L sdiv Microsecond sdiv int ?n = L div Microsecond"
  proof -
    have nl: "0 \<le> int ?n * L" "0 \<le> int ?n * L div 1000" using assms by (simp_all add: pos_imp_zdiv_nonneg_iff)
    have "int ?n * L sdiv Microsecond sdiv int ?n = int ?n * L div 1000 div int ?n"
      using nl by (simp add: sdiv_nonneg_eq_div Microsecond_def)
    also have "\<dots> = int ?n * L div (1000 * int ?n)"
      by (rule zdiv_zmult2_eq [symmetric]) simp
    also have "\<dots> = L div Microsecond" using n by (simp add: Microsecond_def ac_simps)
    finally show ?thesis .
  qed
  have best: "BestTime (fst (runPing (answer_all ip (\<lambda>_. L)) ipAddr ip srcAddr icmpID opt)) = L"
    and worst: "WorstTime (fst (runPing (answer_all ip (\<lambda>_. L)) ipAddr ip srcAddr icmpID opt)) = L"
    using runPing_stats_eq [of "answer_all ip (\<lambda>_. L)" ip srcAddr icmpID opt ipAddr] S n assms
    by (simp_all add: ping_stats_def)
  show ?thesis
    using S n avg best worst assms
    by (simp add: runPing_fields runPing_AvgTime sum_list_replicate Let_def)
qed

theorem runPing_uniform_latency_witness:
  "let opt = \<lparr>opt_count = 3, opt_timeout = 1000000000, opt_interval = 1000000000\<rparr>;
       r = fst (runPing (answer_all ''10.0.0.1'' (\<lambda>_. 5000000)) ''h'' ''10.0.0.1'' '''' 1 opt)
   in 0 < opt_count opt \<and> (0::int) < 5000000 \<and> BestTime r = 5000000 \<and> AvgTime r = 5000000"
  using runPing_uniform_latency [of "\<lparr>opt_count = 3, opt_timeout = 1000000000, opt_interval = 1000000000\<rparr>"
      5000000 "''10.0.0.1''" "''h''" "''''" 1]
  by (simp add: Let_def Microsecond_def)

text \<open>C5: When every attempt is lost (transport error, failure, or a reply from another address) the cycle still returns normally: success is false, the drop rate is 1, all latency and dispersion fields are 0, every attempt is counted as failed, all attempts are sent, and no sleep happens between them.\<close>

theorem runPing_all_lost:
  assumes "0 < opt_count opt" "\<forall>k q. reply_sample ip (echo k q) = None"
  shows "let (r, evs) = runPing echo ipAddr ip srcAddr icmpID opt in
    \<not> Success r \<and> DropRate r = Num 1 \<and> SumTime r = 0 \<and> AvgTime r = 0 \<and> BestTime r = 0 \<and>
    WorstTime r = 0 \<and> RangeTime r = 0 \<and> SquaredDeviationTime r = 0 \<and>
    UncorrectedSDTime r = 0 \<and> CorrectedSDTime r = 0 \<and> SntFailSummary r = opt_count opt \<and>
    sleeps evs = [] \<and> length (sent_requests evs) = nat (opt_count opt)"
proof -
  have S: "cycle_samples echo ip srcAddr icmpID opt = []"
    using assms(2) by (simp add: cycle_attempts_def samples_of_all_lost)
  then have "replicate 0 (0::int) = cycle_samples echo ip srcAddr icmpID opt" by simp
  then show ?thesis
    using S assms runPing_stats_eq [of echo ip srcAddr icmpID opt ipAddr]
    by (simp add: runPing_unfold ping_stats_def Let_def empty_PingReturn_def split: prod.splits)
qed

theorem runPing_all_lost_witness:
  "let opt = \<lparr>opt_count = 3, opt_timeout = 1000000000, opt_interval = 1000000000\<rparr>
   in 0 < opt_count opt \<and> (\<forall>k q. reply_sample ''10.0.0.1'' (scripted [] k q) = None) \<and>
      DropRate (fst (runPing (scripted []) ''h'' ''10.0.0.1'' '''' 1 opt)) = Num 1 \<and>
      sleeps (snd (runPing (scripted []) ''h'' ''10.0.0.1'' '''' 1 opt)) = []"
proof -
  have lost: "\<forall>k q. reply_sample ''10.0.0.1'' (scripted [] k q) = None"
    by (simp add: scripted_def reply_sample_def)
  show ?thesis
    using runPing_all_lost [OF _ lost, where opt = "\<lparr>opt_count = 3, opt_timeout = 1000000000, opt_interval = 1000000000\<rparr>"
        and srcAddr = "''''" and icmpID = 1 and ipAddr = "''h''"] lost
    by (simp add: Let_def split: prod.splits)
qed

text \<open>C7: For non-negative samples the reported average is the mean truncated to whole microseconds: average * K <= sum < (average + 1us) * K for K samples.\<close>

theorem runPing_avg_bounds:
  assumes "cycle_samples echo ip srcAddr icmpID opt \<noteq> []"
    and "\<forall>e\<in>set (cycle_samples echo ip srcAddr icmpID opt). 0 \<le> e"
  shows "let r = fst (runPing echo ipAddr ip srcAddr icmpID opt);
             K = int (length (cycle_samples echo ip srcAddr icmpID opt))
         in AvgTime r * K \<le> SumTime r \<and> SumTime r < (AvgTime r + Microsecond) * K"
proof -
  let ?S = "cycle_samples echo ip srcAddr icmpID opt"
  have s: "0 \<le> sum_list ?S" using assms(2) by (rule sum_list_nonneg_int)
  have k: "0 < int (length ?S)" using assms(1) by simp
  have "sum_list ?S sdiv Microsecond sdiv int (length ?S) = sum_list ?S div 1000 div int (length ?S)"
    using s by (simp add: sdiv_nonneg_eq_div Microsecond_def)
  then show ?thesis
    using avg_trunc_bounds [OF s k] assms(1)
    by (simp add: runPing_fields runPing_AvgTime Let_def Microsecond_def)
qed

theorem runPing_avg_bounds_witness:
  "let echo = scripted [ok_reply ''10.0.0.1'' 1500, ok_reply ''10.0.0.1'' 2999];
       opt = \<lparr>opt_count = 2, opt_timeout = 1000000000, opt_interval = 1000000000\<rparr>;
       r = fst (runPing echo ''h'' ''10.0.0.1'' '''' 1 opt)
   in cycle_samples echo ''10.0.0.1'' '''' 1 opt = [1500, 2999] \<and>
      AvgTime r * 2 \<le> SumTime r \<and> SumTime r < (AvgTime r + Microsecond) * 2"
proof -
  let ?echo = "scripted [ok_reply ''10.0.0.1'' 1500, ok_reply ''10.0.0.1'' 2999]"
  let ?opt = "\<lparr>opt_count = 2, opt_timeout = 1000000000, opt_interval = 1000000000\<rparr> :: PingOptions"
  have S: "cycle_samples ?echo ''10.0.0.1'' '''' 1 ?opt = [1500, 2999]"
    by (simp add: cycle_attempts_def scripted_def ok_reply_def reply_sample_def IsEqualIP_def numeral_eq_Suc)
  show ?thesis
    using runPing_avg_bounds [of ?echo "''10.0.0.1''" "''''" 1 ?opt "''h''"] S by (simp add: Let_def)
qed

lemma spec_example_samples:
  "cycle_samples (answer_all ''10.0.0.1'' (\<lambda>k. 10000000 * int k + 10000000)) ''10.0.0.1'' '''' 1
     \<lparr>opt_count = 3, opt_timeout = 1000000000, opt_interval = 1000000000\<rparr> =
   [10000000, 20000000, 30000000]"
  by (simp add: cycle_attempts_def samples_of_answer_all upt_rec)

section \<open>Properties of the ping engine\<close>

text \<open>C8: The running best time uses 0 as "unset": for non-negative samples in which a 0 ns sample is followed by positive samples, the reported best time is the minimum of the samples after that 0, which is positive, so it is not the minimum sample 0.\<close>

theorem runPing_best_sentinel:
  assumes "cycle_samples echo ip srcAddr icmpID opt = ys @ 0 # zs"
    and "\<forall>e\<in>set ys. 0 \<le> e" "zs \<noteq> []" "\<forall>e\<in>set zs. 0 < e"
  shows "BestTime (fst (runPing echo ipAddr ip srcAddr icmpID opt)) = Min (set zs) \<and>
         Min (set (cycle_samples echo ip srcAddr icmpID opt)) = 0 \<and>
         BestTime (fst (runPing echo ipAddr ip srcAddr icmpID opt)) \<noteq> Min (set (cycle_samples echo ip srcAddr icmpID opt))"
proof -
  let ?q = "fold record_sample ys empty_PingReturn"
  have "0 \<le> bestTime ?q" using assms(2) by (intro fold_record_sample_best_nonneg) (simp_all add: empty_PingReturn_def)
  then have z: "bestTime (record_sample 0 ?q) = 0" by (auto simp: record_sample_def Let_def)
  have b: "BestTime (fst (runPing echo ipAddr ip srcAddr icmpID opt)) = Min (set zs)"
    using fold_record_sample_best_unset [OF z assms(3,4)] assms(1) by (simp add: runPing_unfold Let_def)
  have m0: "Min (set (ys @ 0 # zs)) = 0"
    using assms(2,4) by (intro Min_eqI) auto
  have "0 < Min (set zs)" using assms(3,4) by simp
  with b m0 assms(1) show ?thesis by simp
qed

theorem runPing_best_sentinel_witness:
  "cycle_samples (scripted [ok_reply ''10.0.0.1'' 0, ok_reply ''10.0.0.1'' 3000000]) ''10.0.0.1'' '''' 1
     \<lparr>opt_count = 2, opt_timeout = 1000000000, opt_interval = 1000000000\<rparr> = [] @ 0 # [3000000] \<and>
   BestTime (fst (runPing (scripted [ok_reply ''10.0.0.1'' 0, ok_reply ''10.0.0.1'' 3000000]) ''h'' ''10.0.0.1'' '''' 1
     \<lparr>opt_count = 2, opt_timeout = 1000000000, opt_interval = 1000000000\<rparr>)) = 3000000"
proof -
  have S: "cycle_samples (scripted [ok_reply ''10.0.0.1'' 0, ok_reply ''10.0.0.1'' 3000000]) ''10.0.0.1'' '''' 1
     \<lparr>opt_count = 2, opt_timeout = 1000000000, opt_interval = 1000000000\<rparr> = [] @ 0 # [3000000]"
    by (simp add: cycle_attempts_def scripted_def ok_reply_def reply_sample_def IsEqualIP_def numeral_eq_Suc)
  show ?thesis using runPing_best_sentinel [OF S, of "''h''"] S by simp
qed

text \<open>C1: runPing refines its abstract specification: when the samples of a cycle are positive, the result is exactly the batch statistics of the sample set (success, drop rate, sum, truncated average, minimum, maximum, dispersion, range, attempt and failure counters), except that the cycle's cumulative time counter holds the range of the samples where the spec asks for the total elapsed time.\<close>

theorem runPing_refines:
  assumes "\<forall>e\<in>set (cycle_samples echo ip srcAddr icmpID opt). 0 < e"
  shows "fst (runPing echo ipAddr ip srcAddr icmpID opt) =
    (ping_stats ipAddr ip (opt_count opt) (cycle_samples echo ip srcAddr icmpID opt))
      \<lparr>SntTimeSummary := TimeRange (cycle_samples echo ip srcAddr icmpID opt)\<rparr>"
  using assms by (rule runPing_stats_eq)

theorem runPing_refines_witness:
  "cycle_samples (answer_all ''10.0.0.1'' (\<lambda>k. 10000000 * int k + 10000000)) ''10.0.0.1'' '''' 1
      \<lparr>opt_count = 3, opt_timeout = 1000000000, opt_interval = 1000000000\<rparr> =
     [10000000, 20000000, 30000000] \<and>
   fst (runPing (answer_all ''10.0.0.1'' (\<lambda>k. 10000000 * int k + 10000000)) ''h'' ''10.0.0.1'' '''' 1
        \<lparr>opt_count = 3, opt_timeout = 1000000000, opt_interval = 1000000000\<rparr>) =
   (ping_stats ''h'' ''10.0.0.1'' 3 [10000000, 20000000, 30000000])\<lparr>SntTimeSummary := 20000000\<rparr>"
  using runPing_refines [of "answer_all ''10.0.0.1'' (\<lambda>k. 10000000 * int k + 10000000)" "''10.0.0.1''" "''''" 1
      "\<lparr>opt_count = 3, opt_timeout = 1000000000, opt_interval = 1000000000\<rparr>" "''h''"]
  by (simp add: spec_example_samples)

end
