(* ===== verification/Strconv.thy ===== *)
theory Strconv
  imports Prelude
begin

text \<open>
  Go's \<open>strconv.Itoa\<close> (the standard library, modelled from its documented behaviour:
  the decimal digits of the integer, with a leading \<open>-\<close> when it is negative) and a
  decimal parser used only to show that the text \<open>Itoa\<close> produces determines the integer.
\<close>

definition digit_char :: "nat \<Rightarrow> char" where
  "digit_char d = char_of (48 + d)"

fun nat_digits :: "nat \<Rightarrow> string" where
  "nat_digits n = (if n < 10 then [digit_char n] else nat_digits (n div 10) @ [digit_char (n mod 10)])"

definition Itoa :: "int \<Rightarrow> string" where
  "Itoa i = (if i < 0 then CHR ''-'' # nat_digits (nat (- i)) else nat_digits (nat i))"

definition dec_digit :: "char \<Rightarrow> bool" where
  "dec_digit c \<longleftrightarrow> 48 \<le> (of_char c :: nat) \<and> (of_char c :: nat) \<le> 57"

fun digits_val :: "nat \<Rightarrow> string \<Rightarrow> nat option" where
  "digits_val acc [] = Some acc"
| "digits_val acc (c # cs) =
     (if dec_digit c then digits_val (10 * acc + (of_char c - 48)) cs else None)"

definition parse_int :: "string \<Rightarrow> int option" where
  "parse_int s =
     (case s of
        [] \<Rightarrow> None
      | c # cs \<Rightarrow>
          if c = CHR ''-'' then (if cs = [] then None else map_option (\<lambda>n. - int n) (digits_val 0 cs))
          else map_option int (digits_val 0 s))"

declare nat_digits.simps [simp del]

lemma of_char_digit_char [simp]: "d < 10 \<Longrightarrow> of_char (digit_char d) = 48 + d"
  by (simp add: digit_char_def)

lemma dec_digit_digit_char [simp]: "d < 10 \<Longrightarrow> dec_digit (digit_char d)"
  by (simp add: dec_digit_def)

lemma digits_val_append:
  "digits_val acc (xs @ ys) = (case digits_val acc xs of None \<Rightarrow> None | Some a \<Rightarrow> digits_val a ys)"
  by (induction acc xs rule: digits_val.induct) auto

lemma nat_digits_ne [simp]: "nat_digits n \<noteq> []"
  by (subst nat_digits.simps) simp

lemma set_nat_digits: "c \<in> set (nat_digits n) \<Longrightarrow> dec_digit c"
proof (induction n rule: nat_digits.induct)
  case (1 n)
  then show ?case
    by (cases "n < 10") (auto simp: nat_digits.simps [of n])
qed

lemma digits_val_nat_digits: "digits_val 0 (nat_digits n) = Some n"
proof (induction n rule: nat_digits.induct)
  case (1 n)
  show ?case
  proof (cases "n < 10")
    case True then show ?thesis by (simp add: nat_digits.simps [of n])
  next
    case False
    then have "digits_val 0 (nat_digits (n div 10)) = Some (n div 10)" using "1.IH" by simp
    with False show ?thesis
      by (simp add: nat_digits.simps [of n] digits_val_append)
  qed
qed

lemma minus_not_digit [simp]: "\<not> dec_digit CHR ''-''"
  by (simp add: dec_digit_def)

lemma underscore_not_digit [simp]: "\<not> dec_digit CHR ''_''"
  by (simp add: dec_digit_def)

lemma parse_int_Itoa: "parse_int (Itoa i) = Some i"
proof (cases "i < 0")
  case True
  then show ?thesis
    by (simp add: Itoa_def parse_int_def digits_val_nat_digits)
next
  case False
  obtain c cs where cs: "nat_digits (nat i) = c # cs" by (cases "nat_digits (nat i)") auto
  then have "dec_digit c" using set_nat_digits [of c "nat i"] by simp
  then have "c \<noteq> CHR ''-''" by auto
  with False cs show ?thesis
    using digits_val_nat_digits [of "nat i"] by (simp add: Itoa_def parse_int_def)
qed

lemma underscore_notin_Itoa: "CHR ''_'' \<notin> set (Itoa i)"
  unfolding Itoa_def by (auto dest: set_nat_digits)

end
