(* ===== verification/Mtr.thy ===== *)
theory Mtr
  imports Strconv
begin

text \<open>
  The hop summary aggregator: the critical section of \<open>MTR.mtr\<close> in
  \<open>src/target/target_mtr.go\<close> (lines 98--115), which replaces the target's result by
  the new trace and merges the trace's hops into the cumulative \<open>HopSummaryMap\<close>, keyed
  by \<open>strconv.Itoa(hop.TTL) + "_" + hop.AddressTo\<close>. The hop trace itself comes from the
  external \<open>mtr.Mtr\<close>; its result types are modelled from the spec. The map's values are
  pointers mutated in place in Go; as no other reference to them escapes the lock, a map
  to values updated functionally has the same behaviour.
\<close>

section \<open>Data\<close>

text \<open>\<open>mtr.MtrHop\<close>, \<open>common.IcmpSummary\<close> and \<open>mtr.MtrResult\<close> (spec-modelled).\<close>

record MtrHop =
  hop_TTL :: int
  hop_AddressFrom :: string
  hop_AddressTo :: string
  hop_Snt :: int
  hop_SumTime :: duration
  hop_SntFail :: int

record IcmpSummary =
  sum_AddressFrom :: string
  sum_AddressTo :: string
  sum_Snt :: int
  sum_SntFail :: int
  sum_SntTime :: duration

type_synonym summary_map = "string \<rightharpoonup> IcmpSummary"

record MtrResult =
  mtr_DestAddress :: string
  Hops :: "MtrHop list"
  HopSummaryMap :: summary_map

text \<open>\<open>&common.IcmpSummary{}\<close> (line 104).\<close>

definition empty_IcmpSummary :: IcmpSummary where
  "empty_IcmpSummary =
     \<lparr>sum_AddressFrom = [], sum_AddressTo = [], sum_Snt = 0, sum_SntFail = 0, sum_SntTime = 0\<rparr>"

text \<open>The result \<open>NewMTR\<close> starts with (line 50).\<close>

definition mtr_initial :: MtrResult where
  "mtr_initial = \<lparr>mtr_DestAddress = [], Hops = [], HopSummaryMap = Map.empty\<rparr>"

section \<open>The merge\<close>

text \<open>The map key of a hop, lines 102 and 105.\<close>

definition hop_key :: "MtrHop \<Rightarrow> string" where
  "hop_key hop = Itoa (hop_TTL hop) @ ''_'' @ hop_AddressTo hop"

text \<open>The update of one summary by one hop, lines 107--111.\<close>

definition update_summary :: "MtrHop \<Rightarrow> IcmpSummary \<Rightarrow> IcmpSummary" where
  "update_summary hop s =
     s\<lparr>sum_AddressFrom := hop_AddressFrom hop, sum_AddressTo := hop_AddressTo hop,
       sum_Snt := sum_Snt s + hop_Snt hop, sum_SntTime := sum_SntTime s + hop_SumTime hop,
       sum_SntFail := sum_SntFail s + hop_SntFail hop\<rparr>"

text \<open>One iteration of the loop, lines 102--111: look the key up, create a zero entry when
  it is missing, update it.\<close>

definition merge_hop :: "MtrHop \<Rightarrow> summary_map \<Rightarrow> summary_map" where
  "merge_hop hop m =
     (let k = hop_key hop;
          s = (case m k of None \<Rightarrow> empty_IcmpSummary | Some s \<Rightarrow> s)
      in m(k \<mapsto> update_summary hop s))"

text \<open>The loop over the hops of the new trace, lines 101--112.\<close>

definition merge_hops :: "summary_map \<Rightarrow> MtrHop list \<Rightarrow> summary_map" where
  "merge_hops m hops = fold merge_hop hops m"

text \<open>
  The critical section, lines 98--115: \<open>data\<close> is the pointer returned by \<open>mtr.Mtr\<close>
  (\<open>None\<close> for nil). The old map is kept, the result replaced by \<open>data\<close>, the hops
  merged into the old map, and the map put into the new result. A nil \<open>data\<close> makes
  \<open>data.Hops\<close> panic.
\<close>

definition mtr_commit :: "MtrResult option \<Rightarrow> MtrResult \<Rightarrow> go_panic + MtrResult" where
  "mtr_commit data r =
     (case data of
        None \<Rightarrow> Inl NilDereference
      | Some d \<Rightarrow> Inr (d\<lparr>HopSummaryMap := merge_hops (HopSummaryMap r) (Hops d)\<rparr>))"

section \<open>Reference model\<close>

text \<open>
  What the aggregator promises for one key: the entry is the old one (or a zero entry)
  updated by the hops of the trace with that key, in trace order; keys no hop of the trace
  has keep their entry.
\<close>

definition key_summary :: "summary_map \<Rightarrow> MtrHop list \<Rightarrow> string \<Rightarrow> IcmpSummary option" where
  "key_summary m hops k =
     (let hs = filter (\<lambda>h. hop_key h = k) hops
      in if hs = [] then m k
         else Some (fold update_summary hs (case m k of None \<Rightarrow> empty_IcmpSummary | Some s \<Rightarrow> s)))"

text \<open>The cumulative counters of an entry.\<close>

definition counters :: "IcmpSummary \<Rightarrow> int \<times> duration \<times> int" where
  "counters s = (sum_Snt s, sum_SntTime s, sum_SntFail s)"

text \<open>The decimal parser's inverse of the key, used to show that keys do not collide.\<close>

definition parse_hop_key :: "string \<Rightarrow> (int \<times> string) option" where
  "parse_hop_key s =
     (case dropWhile (\<lambda>c. c \<noteq> CHR ''_'') s of
        [] \<Rightarrow> None
      | c # rest \<Rightarrow> map_option (\<lambda>t. (t, rest)) (parse_int (takeWhile (\<lambda>c. c \<noteq> CHR ''_'') s)))"

section \<open>Lemmas and properties\<close>

lemma merge_hops_Cons [simp]: "merge_hops m (h # hs) = merge_hops (merge_hop h m) hs"
  by (simp add: merge_hops_def)

lemma merge_hops_Nil [simp]: "merge_hops m [] = m"
  by (simp add: merge_hops_def)

lemma merge_hops_append: "merge_hops m (hs1 @ hs2) = merge_hops (merge_hops m hs1) hs2"
  by (simp add: merge_hops_def)

lemma merge_hop_apply:
  "merge_hop h m k = (if hop_key h = k
     then Some (update_summary h (case m k of None \<Rightarrow> empty_IcmpSummary | Some s \<Rightarrow> s)) else m k)"
  by (auto simp: merge_hop_def Let_def)

lemma merge_hops_key_summary: "merge_hops m hops k = key_summary m hops k"
proof (induction hops arbitrary: m)
  case Nil then show ?case by (simp add: key_summary_def)
next
  case (Cons h hs)
  then show ?case
    by (cases "filter (\<lambda>h. hop_key h = k) hs = []")
       (auto simp: key_summary_def merge_hop_apply Let_def)
qed

lemma dom_merge_hops: "dom (merge_hops m hops) = dom m \<union> hop_key ` set hops"
  by (induction hops arbitrary: m) (auto simp: merge_hop_def Let_def)

lemma merge_hops_frame: "k \<notin> hop_key ` set hops \<Longrightarrow> merge_hops m hops k = m k"
  by (induction hops arbitrary: m) (auto simp: merge_hop_apply)

lemma counters_fold_update:
  "counters (fold update_summary hs s) =
     (sum_Snt s + sum_list (map hop_Snt hs), sum_SntTime s + sum_list (map hop_SumTime hs),
      sum_SntFail s + sum_list (map hop_SntFail hs))"
  by (induction hs arbitrary: s) (simp_all add: counters_def update_summary_def algebra_simps)

lemma parse_hop_key_hop_key: "parse_hop_key (hop_key h) = Some (hop_TTL h, hop_AddressTo h)"
proof -
  have nu: "\<forall>c\<in>set (Itoa (hop_TTL h)). c \<noteq> CHR ''_''" using underscore_notin_Itoa by blast
  then have "takeWhile (\<lambda>c. c \<noteq> CHR ''_'') (hop_key h) = Itoa (hop_TTL h)"
    by (simp add: hop_key_def takeWhile_append2)
  moreover have "dropWhile (\<lambda>c. c \<noteq> CHR ''_'') (hop_key h) = CHR ''_'' # hop_AddressTo h"
    using nu by (simp add: hop_key_def dropWhile_append2)
  ultimately show ?thesis by (simp add: parse_hop_key_def parse_int_Itoa)
qed

text \<open>C13: The summary key strconv.Itoa(TTL) + "_" + AddressTo is collision-free: two hops share a key exactly when they have the same TTL and the same responding address, since the decimal text of the TTL contains no underscore.\<close>

theorem hop_key_inj:
  "hop_key h1 = hop_key h2 \<longleftrightarrow> hop_TTL h1 = hop_TTL h2 \<and> hop_AddressTo h1 = hop_AddressTo h2"
  by (metis hop_key_def parse_hop_key_hop_key option.inject prod.inject)

lemma counters_merge_hops:
  "map_option counters (merge_hops m hs k) =
     (if filter (\<lambda>h. hop_key h = k) hs = [] then map_option counters (m k)
      else Some (let s = (case m k of None \<Rightarrow> empty_IcmpSummary | Some s \<Rightarrow> s);
                     hs' = filter (\<lambda>h. hop_key h = k) hs
                 in (sum_Snt s + sum_list (map hop_Snt hs'), sum_SntTime s + sum_list (map hop_SumTime hs'),
                     sum_SntFail s + sum_list (map hop_SntFail hs'))))"
  by (simp add: merge_hops_key_summary key_summary_def counters_fold_update Let_def)

lemma counters_merge_hops_swap:
  "map_option counters (merge_hops m (hs1 @ hs2) k) = map_option counters (merge_hops m (hs2 @ hs1) k)"
  by (simp only: counters_merge_hops) (auto simp: Let_def)

lemma mtr_commit_Some:
  "mtr_commit (Some d) r = Inr r' \<longleftrightarrow> r' = d\<lparr>HopSummaryMap := merge_hops (HopSummaryMap r) (Hops d)\<rparr>"
  by (auto simp: mtr_commit_def)

lemma Itoa_small [simp]: "Itoa 3 = ''3''" "Itoa 4 = ''4''"
  by code_simp+

text \<open>C9: The merge loop of MTR.mtr implements the per-key specification: after merging a trace, the entry of every key is the old entry (or a zero entry when there was none) updated by exactly the hops of the trace with that key, in trace order, and the entry of every other key is unchanged.\<close>

theorem merge_hops_refines: "merge_hops m hops = key_summary m hops"
  by (rule ext) (rule merge_hops_key_summary)

text \<open>C10: A committed trace cycle publishes the new trace's hops as the latest hops; the summary map gains exactly the keys of the new hops and loses none; the entry of a key absent from the trace keeps its value.\<close>

theorem mtr_commit_keys:
  assumes "mtr_commit (Some d) r = Inr r'"
  shows "Hops r' = Hops d \<and>
         dom (HopSummaryMap r') = dom (HopSummaryMap r) \<union> hop_key ` set (Hops d) \<and>
         (\<forall>k. k \<notin> hop_key ` set (Hops d) \<longrightarrow> HopSummaryMap r' k = HopSummaryMap r k)"
  using assms by (auto simp: mtr_commit_Some dom_merge_hops merge_hops_frame)

text \<open>C11: With non-negative per-hop counters, a commit never decreases the cumulative sent, time and failure totals of an existing key.\<close>

theorem mtr_commit_monotone:
  assumes "mtr_commit (Some d) r = Inr r'"
    and "\<forall>h\<in>set (Hops d). 0 \<le> hop_Snt h \<and> 0 \<le> hop_SumTime h \<and> 0 \<le> hop_SntFail h"
    and "HopSummaryMap r k = Some s"
  shows "\<exists>s'. HopSummaryMap r' k = Some s' \<and>
           sum_Snt s \<le> sum_Snt s' \<and> sum_SntTime s \<le> sum_SntTime s' \<and> sum_SntFail s \<le> sum_SntFail s'"
proof -
  let ?hs = "filter (\<lambda>h. hop_key h = k) (Hops d)"
  have nn: "0 \<le> sum_list (map hop_Snt ?hs)" "0 \<le> sum_list (map hop_SumTime ?hs)"
    "0 \<le> sum_list (map hop_SntFail ?hs)"
    using assms(2) by (auto intro!: sum_list_map_nonneg)
  show ?thesis
    using assms(1,3) nn counters_fold_update [of ?hs s]
    by (auto simp: mtr_commit_Some merge_hops_key_summary key_summary_def counters_def Let_def)
qed

text \<open>C12: Two overlapping trace cycles that commit in either order leave the same cumulative counters and the same keys; only the latest hop list (and the address fields) depends on which one finished last.\<close>

theorem mtr_commit_interleaving:
  assumes "mtr_commit (Some d1) r = Inr r1" "mtr_commit (Some d2) r1 = Inr r12"
    and "mtr_commit (Some d2) r = Inr r2" "mtr_commit (Some d1) r2 = Inr r21"
  shows "map_option counters \<circ> HopSummaryMap r12 = map_option counters \<circ> HopSummaryMap r21 \<and>
         dom (HopSummaryMap r12) = dom (HopSummaryMap r21) \<and> Hops r12 = Hops d2 \<and> Hops r21 = Hops d1"
proof -
  have "HopSummaryMap r12 = merge_hops (HopSummaryMap r) (Hops d1 @ Hops d2)"
    "HopSummaryMap r21 = merge_hops (HopSummaryMap r) (Hops d2 @ Hops d1)"
    using assms by (auto simp: mtr_commit_Some merge_hops_append)
  then show ?thesis
    using assms counters_merge_hops_swap [of "HopSummaryMap r" "Hops d1" "Hops d2"]
    by (auto simp: mtr_commit_Some dom_merge_hops)
qed

theorem mtr_commit_keys_witness:
  "let h = \<lparr>hop_TTL = 3, hop_AddressFrom = ''192.168.1.1'', hop_AddressTo = ''10.0.0.1'',
            hop_Snt = 1, hop_SumTime = 5000000, hop_SntFail = 0\<rparr>;
       d = \<lparr>mtr_DestAddress = ''10.0.0.1'', Hops = [h], HopSummaryMap = Map.empty\<rparr>;
       r' = d\<lparr>HopSummaryMap := merge_hops Map.empty [h]\<rparr>
   in mtr_commit (Some d) mtr_initial = Inr r' \<and> dom (HopSummaryMap r') = {''3_10.0.0.1''} \<and>
      HopSummaryMap r' ''4_10.0.0.2'' = None"
proof -
  let ?h = "\<lparr>hop_TTL = 3, hop_AddressFrom = ''192.168.1.1'', hop_AddressTo = ''10.0.0.1'',
            hop_Snt = 1, hop_SumTime = 5000000, hop_SntFail = 0\<rparr> :: MtrHop"
  let ?d = "\<lparr>mtr_DestAddress = ''10.0.0.1'', Hops = [?h], HopSummaryMap = Map.empty\<rparr> :: MtrResult"
  let ?r = "?d\<lparr>HopSummaryMap := merge_hops Map.empty [?h]\<rparr>"
  have c: "mtr_commit (Some ?d) mtr_initial = Inr ?r" by (simp add: mtr_commit_def mtr_initial_def)
  have k: "''4_10.0.0.2'' \<notin> hop_key ` set [?h]" by (simp add: hop_key_def)
  show ?thesis
    using mtr_commit_keys [OF c] c k by (auto simp: Let_def mtr_initial_def hop_key_def)
qed

theorem mtr_commit_monotone_witness:
  "let h = \<lparr>hop_TTL = 3, hop_AddressFrom = ''192.168.1.1'', hop_AddressTo = ''10.0.0.1'',
            hop_Snt = 1, hop_SumTime = 5000000, hop_SntFail = 0\<rparr>;
       s = \<lparr>sum_AddressFrom = ''192.168.1.1'', sum_AddressTo = ''10.0.0.1'', sum_Snt = 4, sum_SntFail = 1,
            sum_SntTime = 20000000\<rparr>;
       r = mtr_initial\<lparr>HopSummaryMap := [''3_10.0.0.1'' \<mapsto> s]\<rparr>;
       d = \<lparr>mtr_DestAddress = ''10.0.0.1'', Hops = [h], HopSummaryMap = Map.empty\<rparr>;
       r' = d\<lparr>HopSummaryMap := merge_hops (HopSummaryMap r) [h]\<rparr>
   in mtr_commit (Some d) r = Inr r' \<and> 0 \<le> hop_Snt h \<and> 0 \<le> hop_SumTime h \<and> 0 \<le> hop_SntFail h \<and>
      HopSummaryMap r ''3_10.0.0.1'' = Some s \<and>
      map_option counters (HopSummaryMap r' ''3_10.0.0.1'') = Some (5, 25000000, 1)"
proof -
  let ?h = "\<lparr>hop_TTL = 3, hop_AddressFrom = ''192.168.1.1'', hop_AddressTo = ''10.0.0.1'',
            hop_Snt = 1, hop_SumTime = 5000000, hop_SntFail = 0\<rparr> :: MtrHop"
  let ?s = "\<lparr>sum_AddressFrom = ''192.168.1.1'', sum_AddressTo = ''10.0.0.1'', sum_Snt = 4, sum_SntFail = 1,
            sum_SntTime = 20000000\<rparr> :: IcmpSummary"
  let ?r = "mtr_initial\<lparr>HopSummaryMap := [''3_10.0.0.1'' \<mapsto> ?s]\<rparr>"
  let ?d = "\<lparr>mtr_DestAddress = ''10.0.0.1'', Hops = [?h], HopSummaryMap = Map.empty\<rparr> :: MtrResult"
  let ?r' = "?d\<lparr>HopSummaryMap := merge_hops (HopSummaryMap ?r) [?h]\<rparr>"
  have c: "mtr_commit (Some ?d) ?r = Inr ?r'" by (simp add: mtr_commit_def)
  have "\<exists>s'. HopSummaryMap ?r' ''3_10.0.0.1'' = Some s' \<and> sum_Snt ?s \<le> sum_Snt s' \<and>
          sum_SntTime ?s \<le> sum_SntTime s' \<and> sum_SntFail ?s \<le> sum_SntFail s'"
    by (rule mtr_commit_monotone [OF c]) simp_all
  moreover have "map_option counters (HopSummaryMap ?r' ''3_10.0.0.1'') = Some (5, 25000000, 1)"
    by (simp add: merge_hop_def hop_key_def update_summary_def counters_def)
  ultimately show ?thesis using c by (simp add: Let_def)
qed

theorem mtr_commit_interleaving_witness:
  "let h1 = \<lparr>hop_TTL = 3, hop_AddressFrom = ''192.168.1.1'', hop_AddressTo = ''10.0.0.1'',
             hop_Snt = 1, hop_SumTime = 5000000, hop_SntFail = 0\<rparr>;
       h2 = \<lparr>hop_TTL = 3, hop_AddressFrom = ''192.168.1.7'', hop_AddressTo = ''10.0.0.1'',
             hop_Snt = 1, hop_SumTime = 7000000, hop_SntFail = 1\<rparr>;
       d1 = \<lparr>mtr_DestAddress = ''10.0.0.1'', Hops = [h1], HopSummaryMap = Map.empty\<rparr>;
       d2 = \<lparr>mtr_DestAddress = ''10.0.0.1'', Hops = [h2], HopSummaryMap = Map.empty\<rparr>;
       r1 = d1\<lparr>HopSummaryMap := merge_hops Map.empty [h1]\<rparr>;
       r2 = d2\<lparr>HopSummaryMap := merge_hops Map.empty [h2]\<rparr>;
       r12 = d2\<lparr>HopSummaryMap := merge_hops (HopSummaryMap r1) [h2]\<rparr>;
       r21 = d1\<lparr>HopSummaryMap := merge_hops (HopSummaryMap r2) [h1]\<rparr>
   in mtr_commit (Some d1) mtr_initial = Inr r1 \<and> mtr_commit (Some d2) r1 = Inr r12 \<and>
      mtr_commit (Some d2) mtr_initial = Inr r2 \<and> mtr_commit (Some d1) r2 = Inr r21 \<and>
      (map_option counters \<circ> HopSummaryMap r12) ''3_10.0.0.1'' =
        (map_option counters \<circ> HopSummaryMap r21) ''3_10.0.0.1'' \<and>
      Hops r12 = [h2] \<and> Hops r21 = [h1]"
proof -
  let ?h1 = "\<lparr>hop_TTL = 3, hop_AddressFrom = ''192.168.1.1'', hop_AddressTo = ''10.0.0.1'',
             hop_Snt = 1, hop_SumTime = 5000000, hop_SntFail = 0\<rparr> :: MtrHop"
  let ?h2 = "\<lparr>hop_TTL = 3, hop_AddressFrom = ''192.168.1.7'', hop_AddressTo = ''10.0.0.1'',
             hop_Snt = 1, hop_SumTime = 7000000, hop_SntFail = 1\<rparr> :: MtrHop"
  let ?d1 = "\<lparr>mtr_DestAddress = ''10.0.0.1'', Hops = [?h1], HopSummaryMap = Map.empty\<rparr> :: MtrResult"
  let ?d2 = "\<lparr>mtr_DestAddress = ''10.0.0.1'', Hops = [?h2], HopSummaryMap = Map.empty\<rparr> :: MtrResult"
  let ?r1 = "?d1\<lparr>HopSummaryMap := merge_hops Map.empty [?h1]\<rparr>"
  let ?r2 = "?d2\<lparr>HopSummaryMap := merge_hops Map.empty [?h2]\<rparr>"
  let ?r12 = "?d2\<lparr>HopSummaryMap := merge_hops (HopSummaryMap ?r1) [?h2]\<rparr>"
  let ?r21 = "?d1\<lparr>HopSummaryMap := merge_hops (HopSummaryMap ?r2) [?h1]\<rparr>"
  have c: "mtr_commit (Some ?d1) mtr_initial = Inr ?r1" "mtr_commit (Some ?d2) ?r1 = Inr ?r12"
    "mtr_commit (Some ?d2) mtr_initial = Inr ?r2" "mtr_commit (Some ?d1) ?r2 = Inr ?r21"
    by (simp_all add: mtr_commit_def mtr_initial_def)
  have e: "map_option counters \<circ> HopSummaryMap ?r12 = map_option counters \<circ> HopSummaryMap ?r21"
    using mtr_commit_interleaving [OF c] by blast
  show ?thesis
    unfolding Let_def by (intro conjI c fun_cong [OF e]) simp_all
qed

end
