(* ===== verification/IcmpID.thy ===== *)
theory IcmpID
  imports Prelude
begin

text \<open>
  The process-wide identifier allocator \<open>common.IcmpID\<close> (not under src/: modelled from
  spec section 4.1): a rotating counter over the 16-bit ICMP identifier space, advanced
  atomically by \<open>Get\<close>, which returns the new value; the increment wraps silently.
\<close>

type_synonym icmp_counter = "16 word"

definition IcmpID_Get :: "icmp_counter \<Rightarrow> int \<times> icmp_counter" where
  "IcmpID_Get c = (uint (c + 1), c + 1)"

text \<open>The identifiers handed out by \<open>n\<close> consecutive calls.\<close>

fun icmp_ids :: "icmp_counter \<Rightarrow> nat \<Rightarrow> int list" where
  "icmp_ids c 0 = []"
| "icmp_ids c (Suc n) = (let (i, c') = IcmpID_Get c in i # icmp_ids c' n)"

lemma icmp_ids_word: "icmp_ids c n = map (\<lambda>k. uint (c + of_nat (Suc k))) [0..<n]"
proof (induction n arbitrary: c)
  case 0 then show ?case by simp
next
  case (Suc n)
  then show ?case
    by (simp add: IcmpID_Get_def map_upt_Suc ac_simps del: upt_Suc)
qed

lemma uint_add_of_nat: "uint (c + of_nat k :: 16 word) = (uint c + int k) mod 65536"
proof -
  have "uint (of_nat k :: 16 word) = int k mod 65536"
    by (simp add: unsigned_of_nat take_bit_eq_mod of_nat_mod)
  then show ?thesis by (simp add: uint_word_ariths(1) mod_add_right_eq)
qed

lemma icmp_ids_map: "icmp_ids c n = map (\<lambda>k. (uint c + int k + 1) mod 65536) [0..<n]"
  by (simp only: icmp_ids_word uint_add_of_nat) (simp add: ac_simps)

lemma mod_window_inj:
  fixes u :: int and k1 k2 :: nat
  assumes "k1 < 65536" "k2 < 65536" "(u + int k1 + 1) mod 65536 = (u + int k2 + 1) mod 65536"
  shows "k1 = k2"
proof (rule ccontr)
  assume ne: "k1 \<noteq> k2"
  from assms(3) have "(65536::int) dvd (u + int k1 + 1) - (u + int k2 + 1)"
    by (simp add: mod_eq_dvd_iff)
  then have d: "(65536::int) dvd int k1 - int k2" by simp
  from ne have "int k1 - int k2 \<noteq> 0" by simp
  with d have "\<bar>65536::int\<bar> \<le> \<bar>int k1 - int k2\<bar>" by (rule dvd_imp_le_int[rotated])
  with assms(1,2) show False by linarith
qed

text \<open>The 16-bit identifier space: the identifiers of \<open>n\<close> consecutive calls are pairwise distinct exactly when \<open>n \<le> 65536\<close>.\<close>

lemma icmp_ids_distinct: "distinct (icmp_ids c n) \<longleftrightarrow> n \<le> 65536"
proof
  assume "n \<le> 65536"
  then show "distinct (icmp_ids c n)"
    by (auto simp: icmp_ids_map distinct_map inj_on_def intro: mod_window_inj)
next
  assume dist: "distinct (icmp_ids c n)"
  show "n \<le> 65536"
  proof (rule ccontr)
    assume "\<not> n \<le> 65536"
    then have m0: "0 \<in> {0..<n}" and m1: "65536 \<in> {0..<n}" by simp_all
    have "(uint c + int 0 + 1) mod 65536 = ((uint c + 1) + 65536) mod 65536"
      by (subst mod_add_self2) simp
    then have eq: "(\<lambda>k. (uint c + int k + 1) mod 65536) 0 = (\<lambda>k. (uint c + int k + 1) mod 65536) 65536"
      by (simp add: ac_simps)
    have inj: "inj_on (\<lambda>k. (uint c + int k + 1) mod 65536) {0..<n}"
      using dist by (simp add: icmp_ids_map distinct_map)
    have "(0::nat) = 65536" using inj_onD [OF inj eq m0 m1] .
    then show False by simp
  qed
qed

end
