(* ===== verification/Scheduler.thy ===== *)
theory Scheduler
  imports Prelude
begin

text \<open>
  What the two target flavours (\<open>src/target/target_ping.go\<close>,
  \<open>src/target/target_mtr.go\<close>) share: the program points of the goroutines that run a
  target, and the stop channel. Each flavour's theory defines its state as a record that
  extends its struct, and its step relation, one rule per transition of the goroutines.
\<close>

text \<open>Program points of the \<open>run\<close> goroutine: waiting out the startup delay, blocked in
  the \<open>select\<close> of the loop, blocked sending a token to \<open>waitChan\<close> (ping flavour
  only), returned.\<close>

datatype loop_pc = LDelay | LSelect | LSend | LExited

text \<open>The caller of \<open>Stop\<close>: not called, blocked in \<open>wg.Wait()\<close>, returned.\<close>

datatype stop_pc = SIdle | SWaiting | SReturned

text \<open>A probe-cycle goroutine: running the cycle, or (ping flavour) done with it and
  about to release its token with \<open><-waitChan\<close>.\<close>

datatype job_pc = JProbe | JRelease

text \<open>\<open>close(t.stop)\<close>: closing a closed channel panics.\<close>

definition close_chan :: "bool \<Rightarrow> go_panic + bool" where
  "close_chan is_closed = (if is_closed then Inl CloseOfClosedChannel else Inr True)"

end
