(* ===== verification/TargetPing.thy ===== *)
theory TargetPing
  imports Ping IcmpID Scheduler
begin

text \<open>
  The ping target, \<open>src/target/target_ping.go\<close>: the \<open>PING\<close> struct, its constructor
  \<open>NewPing\<close>, the \<open>run\<close> goroutine with its bounded token pool \<open>waitChan\<close> of
  \<open>MaxConcurrentJobs\<close> slots (a parameter \<open>M\<close> here: the constant is declared outside
  the sources), the probe-cycle goroutines it spawns, \<open>ping\<close> (one cycle and its
  publication under the lock), \<open>Stop\<close>, and the read-locked accessors.

  The results live in an explicit heap of \<open>PingResult\<close> objects, because the code
  publishes a pointer: \<open>t.result\<close> is an address, \<open>Compute\<close> returns it, and
  \<open>ping\<close> writes through the old pointer before replacing it. Each critical section
  under the target's lock is one atomic step of the relation; the ticker and the
  startup timer are always ready (a step may be taken at any time), which
  over-approximates the timing and keeps every interleaving the code allows.
\<close>

section \<open>State\<close>

text \<open>The \<open>PING\<close> struct, lines 16--31 (the logger and the embedded lock are not
  modelled: the lock is the atomicity of the steps).\<close>

record PING =
  p_name :: string
  p_host :: string
  p_ip :: string
  p_srcAddr :: string
  p_interval :: duration
  p_timeout :: duration
  p_count :: int
  p_labels :: "string \<rightharpoonup> string"
  p_result :: nat
  p_stop :: bool
  p_wg :: nat

text \<open>The target together with the goroutines that run it and the objects it points to.\<close>

record ping_sys = PING +
  run_pc :: loop_pc
  waitChan :: nat
  jobs :: "job_pc multiset"
  stopper :: stop_pc
  heap :: "nat \<Rightarrow> PingResult"
  next_addr :: nat
  icmp :: icmp_counter

text \<open>\<open>&ping.PingResult{}\<close>: the zero value.\<close>

definition zero_PingResult :: PingResult where
  "zero_PingResult =
     \<lparr>DestAddr = [], DestIp = [], Success = False, DropRate = Num 0, SumTime = 0, AvgTime = 0,
      BestTime = 0, WorstTime = 0, SquaredDeviationTime = 0, UncorrectedSDTime = 0,
      CorrectedSDTime = 0, RangeTime = 0, SntSummary = 0, SntFailSummary = 0, SntTimeSummary = 0\<rparr>"

text \<open>\<open>NewPing\<close>, lines 34--55: the struct with its result at address 0, \<open>wg.Add(1)\<close>,
  and the \<open>run\<close> goroutine started at the startup delay (line 58). Its error result is
  the constant \<open>nil\<close>.\<close>

definition NewPing ::
  "icmp_counter \<Rightarrow> duration \<Rightarrow> string \<Rightarrow> string \<Rightarrow> string \<Rightarrow> string \<Rightarrow> duration \<Rightarrow> duration \<Rightarrow>
   int \<Rightarrow> (string \<rightharpoonup> string) \<Rightarrow> ping_sys" where
  "NewPing c startupDelay name host ip srcAddr interval timeout n_count labels =
     \<lparr>p_name = name, p_host = host, p_ip = ip, p_srcAddr = srcAddr, p_interval = interval,
      p_timeout = timeout, p_count = n_count, p_labels = labels, p_result = 0, p_stop = False,
      p_wg = 1, run_pc = (if 0 < startupDelay then LDelay else LSelect), waitChan = 0,
      jobs = {#}, stopper = SIdle, heap = (\<lambda>a. zero_PingResult), next_addr = 1, icmp = c\<rparr>"

section \<open>Operations\<close>

text \<open>The critical section of \<open>ping\<close>, lines 103--108: the cycle's counters are added
  into the object \<open>t.result\<close> points to, then \<open>t.result\<close> is pointed at the new
  object \<open>data\<close> (allocated by \<open>ping.Ping\<close>).\<close>

definition ping_publish :: "PingResult \<Rightarrow> ping_sys \<Rightarrow> ping_sys" where
  "ping_publish data s =
     (let p = p_result s; old = heap s p; a = next_addr s;
          old' = old\<lparr>SntSummary := SntSummary old + SntSummary data,
                     SntFailSummary := SntFailSummary old + SntFailSummary data,
                     SntTimeSummary := SntTimeSummary old + SntTimeSummary data\<rparr>
      in s\<lparr>heap := (heap s)(p := old', a := data), p_result := a, next_addr := Suc a\<rparr>)"

text \<open>\<open>ping\<close>, lines 90--109: take an identifier, run one cycle against the network
  \<open>echo\<close>, publish. (Logging is not modelled.)\<close>

definition ping_cycle :: "echo \<Rightarrow> ping_sys \<Rightarrow> ping_sys" where
  "ping_cycle echo s =
     (let (icmpID, c) = IcmpID_Get (icmp s);
          data = fst (Ping echo (p_host s) (p_ip s) (p_srcAddr s) (p_count s) (p_interval s)
                        (p_timeout s) icmpID)
      in ping_publish data (s\<lparr>icmp := c\<rparr>))"

text \<open>\<open>Compute\<close>, lines 111--120: the pointer itself, not a copy. (The nil branch is
  unreachable: the constructor sets the pointer and every write sets it to \<open>data\<close>.)\<close>

definition Compute :: "ping_sys \<Rightarrow> nat" where
  "Compute s = p_result s"

text \<open>The other accessors, lines 122--147.\<close>

definition Name :: "ping_sys \<Rightarrow> string" where "Name s = p_name s"
definition Host :: "ping_sys \<Rightarrow> string" where "Host s = p_host s"
definition Ip :: "ping_sys \<Rightarrow> string" where "Ip s = p_ip s"
definition Labels :: "ping_sys \<Rightarrow> string \<rightharpoonup> string" where "Labels s = p_labels s"

text \<open>The \<open>close(t.stop)\<close> of \<open>Stop\<close>, line 86.\<close>

definition ping_close_stop :: "ping_sys \<Rightarrow> go_panic + ping_sys" where
  "ping_close_stop s =
     (case close_chan (p_stop s) of Inl e \<Rightarrow> Inl e | Inr b \<Rightarrow> Inr (s\<lparr>p_stop := b\<rparr>))"

section \<open>The goroutines as a step relation\<close>

text \<open>
  One rule per transition, \<open>M\<close> the capacity of \<open>waitChan\<close>:
  \<^item> \<open>delay_done\<close>: the startup \<open>select\<close> (lines 58--63) ends, by the timer or by the
    stop channel;
  \<^item> \<open>tick\<close>: the loop's \<open>select\<close> takes the ticker (line 74), then blocks on the send;
  \<^item> \<open>loop_exit\<close>: it takes the closed stop channel (lines 70--73), \<open>wg.Done()\<close>;
  \<^item> \<open>dispatch\<close>: the send \<open>waitChan <- struct{}{}\<close> (line 75) completes when the
    buffer has room, and the cycle goroutine starts (line 76);
  \<^item> \<open>probe\<close>: a cycle goroutine runs \<open>t.ping()\<close> (line 77) against any network;
  \<^item> \<open>release\<close>: it receives from \<open>waitChan\<close> (line 78) and ends;
  \<^item> \<open>stop_call\<close>, \<open>stop_return\<close>: \<open>Stop\<close> closes the channel, then returns once
    \<open>wg.Wait()\<close> sees the counter at 0 (lines 85--88);
  \<^item> \<open>other_get\<close>: another target takes an identifier from the shared allocator.
\<close>

inductive ping_step :: "nat \<Rightarrow> ping_sys \<Rightarrow> ping_sys \<Rightarrow> bool" for M :: nat where
  delay_done: "run_pc s = LDelay \<Longrightarrow> ping_step M s (s\<lparr>run_pc := LSelect\<rparr>)"
| tick: "run_pc s = LSelect \<Longrightarrow> ping_step M s (s\<lparr>run_pc := LSend\<rparr>)"
| loop_exit: "run_pc s = LSelect \<Longrightarrow> p_stop s \<Longrightarrow>
    ping_step M s (s\<lparr>run_pc := LExited, p_wg := p_wg s - 1\<rparr>)"
| dispatch: "run_pc s = LSend \<Longrightarrow> waitChan s < M \<Longrightarrow>
    ping_step M s (s\<lparr>run_pc := LSelect, waitChan := Suc (waitChan s), jobs := add_mset JProbe (jobs s)\<rparr>)"
| probe: "JProbe \<in># jobs s \<Longrightarrow>
    ping_step M s ((ping_cycle echo s)\<lparr>jobs := add_mset JRelease (jobs s - {#JProbe#})\<rparr>)"
| release: "JRelease \<in># jobs s \<Longrightarrow>
    ping_step M s (s\<lparr>jobs := jobs s - {#JRelease#}, waitChan := waitChan s - 1\<rparr>)"
| stop_call: "stopper s = SIdle \<Longrightarrow> ping_close_stop s = Inr s' \<Longrightarrow>
    ping_step M s (s'\<lparr>stopper := SWaiting\<rparr>)"
| stop_return: "stopper s = SWaiting \<Longrightarrow> p_wg s = 0 \<Longrightarrow> ping_step M s (s\<lparr>stopper := SReturned\<rparr>)"
| other_get: "ping_step M s (s\<lparr>icmp := icmp s + 1\<rparr>)"

text \<open>The states reachable from a freshly constructed target.\<close>

inductive ping_reachable :: "nat \<Rightarrow> ping_sys \<Rightarrow> bool" for M :: nat where
  init: "ping_reachable M (NewPing c startupDelay name host ip srcAddr interval timeout n_count labels)"
| step: "ping_reachable M s \<Longrightarrow> ping_step M s s' \<Longrightarrow> ping_reachable M s'"

section \<open>Invariant\<close>

text \<open>The invariant of the ping target: one token per live cycle goroutine, at most
  \<open>M\<close> of them; the stop channel is closed exactly when Stop has been called; the wait
  group counts the run goroutine until it exits; Stop returns only after the loop exited;
  the published pointer is allocated.\<close>

definition ping_inv :: "nat \<Rightarrow> ping_sys \<Rightarrow> bool" where
  "ping_inv M s \<longleftrightarrow>
     size (jobs s) = waitChan s \<and> waitChan s \<le> M \<and>
     (p_stop s \<longleftrightarrow> stopper s \<noteq> SIdle) \<and>
     p_wg s = (if run_pc s = LExited then 0 else 1) \<and>
     (stopper s = SReturned \<longrightarrow> run_pc s = LExited) \<and>
     p_result s < next_addr s"

section \<open>Properties of the ping target\<close>

lemma ping_publish_fields [simp]:
  "run_pc (ping_publish d s) = run_pc s" "waitChan (ping_publish d s) = waitChan s"
  "jobs (ping_publish d s) = jobs s" "stopper (ping_publish d s) = stopper s"
  "p_stop (ping_publish d s) = p_stop s" "p_wg (ping_publish d s) = p_wg s"
  "icmp (ping_publish d s) = icmp s" "p_count (ping_publish d s) = p_count s"
  "p_host (ping_publish d s) = p_host s" "p_ip (ping_publish d s) = p_ip s"
  "p_result (ping_publish d s) = next_addr s" "next_addr (ping_publish d s) = Suc (next_addr s)"
  by (simp_all add: ping_publish_def Let_def)

lemma ping_cycle_fields [simp]:
  "run_pc (ping_cycle e s) = run_pc s" "waitChan (ping_cycle e s) = waitChan s"
  "jobs (ping_cycle e s) = jobs s" "stopper (ping_cycle e s) = stopper s"
  "p_stop (ping_cycle e s) = p_stop s" "p_wg (ping_cycle e s) = p_wg s"
  "p_result (ping_cycle e s) = next_addr s" "next_addr (ping_cycle e s) = Suc (next_addr s)"
  by (simp_all add: ping_cycle_def Let_def split: prod.splits)

lemma ping_inv_init: "ping_inv M (NewPing c d name host ip srcAddr interval timeout n_count labels)"
  by (simp add: ping_inv_def NewPing_def)

lemma mem_size_pos: "x \<in># A \<Longrightarrow> 0 < size A"
  by (induction A) auto

lemma size_remove1_mset: "x \<in># A \<Longrightarrow> size (A - {#x#}) = size A - 1"
  by (simp add: size_Diff_singleton)

lemma ping_step_inv: "ping_step M s s' \<Longrightarrow> ping_inv M s \<Longrightarrow> ping_inv M s'"
proof (induction rule: ping_step.induct)
  case (probe s echo)
  then have "0 < size (jobs s)" by (blast intro: mem_size_pos)
  with probe show ?case by (auto simp: ping_inv_def size_remove1_mset)
next
  case (release s)
  then have "0 < size (jobs s)" by (blast intro: mem_size_pos)
  with release show ?case by (auto simp: ping_inv_def size_remove1_mset)
next
  case (stop_call s s')
  then show ?case
    by (auto simp: ping_inv_def ping_close_stop_def close_chan_def split: if_splits)
qed (auto simp: ping_inv_def split: if_splits)

lemma ping_reachable_inv: "ping_reachable M s \<Longrightarrow> ping_inv M s"
  by (induction rule: ping_reachable.induct) (auto intro: ping_inv_init ping_step_inv)

lemma Ping_fields:
  "SntSummary (fst (Ping echo addr ip srcAddr n interval timeout icmpID)) = n"
  "SntFailSummary (fst (Ping echo addr ip srcAddr n interval timeout icmpID)) =
     n - int (length (cycle_samples echo ip srcAddr icmpID
                        \<lparr>opt_count = n, opt_timeout = timeout, opt_interval = interval\<rparr>))"
  by (simp_all add: Ping_def runPing_fields)

lemma ping_cycle_result:
  "heap (ping_cycle e s) (Compute (ping_cycle e s)) =
     fst (Ping e (p_host s) (p_ip s) (p_srcAddr s) (p_count s) (p_interval s) (p_timeout s)
            (fst (IcmpID_Get (icmp s))))"
  by (simp add: ping_cycle_def ping_publish_def Compute_def Let_def split: prod.splits)

lemma ping_cycle_old:
  "p_result s < next_addr s \<Longrightarrow> heap (ping_cycle e s) (Compute s) =
     (let old = heap s (Compute s);
          data = fst (Ping e (p_host s) (p_ip s) (p_srcAddr s) (p_count s) (p_interval s) (p_timeout s)
                        (fst (IcmpID_Get (icmp s))))
      in old\<lparr>SntSummary := SntSummary old + SntSummary data,
             SntFailSummary := SntFailSummary old + SntFailSummary data,
             SntTimeSummary := SntTimeSummary old + SntTimeSummary data\<rparr>)"
  by (simp add: ping_cycle_def ping_publish_def Compute_def Let_def split: prod.splits)

lemma ping_step_config:
  "ping_step M s s' \<Longrightarrow> p_count s' = p_count s \<and> p_host s' = p_host s"
  by (induction rule: ping_step.induct)
     (auto simp: ping_cycle_def ping_publish_def ping_close_stop_def close_chan_def Let_def
           split: prod.splits if_splits)

lemma ping_step_result:
  "ping_step M s s' \<Longrightarrow> Compute s' = Compute s \<and> heap s' (Compute s') = heap s (Compute s) \<or>
     (\<exists>e. heap s' (Compute s') = heap (ping_cycle e s) (Compute (ping_cycle e s)) \<and> Compute s' = next_addr s)"
  by (induction rule: ping_step.induct)
     (auto simp: Compute_def ping_close_stop_def close_chan_def split: if_splits)




text \<open>C15: The published result is never cumulative: in every reachable state the sent counter of the object Compute returns is 0 (the initial zero object) or exactly the configured count of one cycle, although ping adds the old counters into the old object before replacing the pointer (target_ping.go lines 105--108).\<close>

theorem ping_sent_not_cumulative:
  assumes "ping_reachable M s"
  shows "SntSummary (heap s (Compute s)) = (if Compute s = 0 then 0 else p_count s)"
  using assms
proof (induction rule: ping_reachable.induct)
  case init then show ?case by (simp add: NewPing_def Compute_def zero_PingResult_def)
next
  case (step s s')
  from step.hyps(2) have cfg: "p_count s' = p_count s" by (blast dest: ping_step_config)
  from step.hyps(1) have pos: "0 < next_addr s"
    by (auto dest!: ping_reachable_inv simp: ping_inv_def)
  from ping_step_result [OF step.hyps(2)] show ?case
  proof
    assume eq: "Compute s' = Compute s \<and> heap s' (Compute s') = heap s (Compute s)"
    then have "heap s' (Compute s') = heap s (Compute s)" by (rule conjunct2)
    then have "SntSummary (heap s' (Compute s')) = SntSummary (heap s (Compute s))" by (rule arg_cong)
    with step.IH cfg eq show ?thesis by presburger
  next
    assume "\<exists>e. heap s' (Compute s') = heap (ping_cycle e s) (Compute (ping_cycle e s)) \<and>
      Compute s' = next_addr s"
    with cfg pos show ?thesis by (auto simp: ping_cycle_result Ping_fields)
  qed
qed

lemma ping_step_exited:
  "ping_step M s s' \<Longrightarrow> run_pc s = LExited \<Longrightarrow>
     run_pc s' = LExited \<and> count (jobs s') JProbe \<le> count (jobs s) JProbe"
  by (induction rule: ping_step.induct)
     (auto simp: ping_close_stop_def close_chan_def split: if_splits)

lemma ping_steps_exited:
  "(ping_step M)\<^sup>*\<^sup>* s s' \<Longrightarrow> run_pc s = LExited \<Longrightarrow>
     run_pc s' = LExited \<and> count (jobs s') JProbe \<le> count (jobs s) JProbe"
  by (induction rule: rtranclp_induct) (auto dest: ping_step_exited)

text \<open>C20: Once Stop has returned, the run loop has exited for good and no new probe cycle is ever started: along every later run the number of running cycles never grows.\<close>

theorem ping_stop_no_new_cycles:
  assumes "ping_reachable M s" "stopper s = SReturned" "(ping_step M)\<^sup>*\<^sup>* s s'"
  shows "run_pc s' = LExited \<and> count (jobs s') JProbe \<le> count (jobs s) JProbe"
proof -
  have "run_pc s = LExited" using ping_reachable_inv [OF assms(1)] assms(2) by (simp add: ping_inv_def)
  then show ?thesis using assms(3) ping_steps_exited by blast
qed

text \<open>C22: Stop is not idempotent: in every reachable state in which Stop has been called, a second call closes a closed channel and panics.\<close>

theorem ping_stop_twice_panics:
  assumes "ping_reachable M s" "stopper s \<noteq> SIdle"
  shows "ping_close_stop s = Inl CloseOfClosedChannel"
  using ping_reachable_inv [OF assms(1)] assms(2)
  by (simp add: ping_inv_def ping_close_stop_def close_chan_def)

text \<open>C18: The token pool bounds the concurrency of the ping target: in every reachable state the number of probe-cycle goroutines alive equals the number of tokens held in waitChan, and is at most MaxConcurrentJobs.\<close>

theorem ping_pool_bound:
  assumes "ping_reachable M s"
  shows "size (jobs s) = waitChan s \<and> size (jobs s) \<le> M"
  using ping_reachable_inv [OF assms] by (simp add: ping_inv_def)

lemma ping_drain:
  assumes "ping_inv M s" "n = 2 * count (jobs s) JProbe + count (jobs s) JRelease"
  shows "\<exists>t. (ping_step M)\<^sup>*\<^sup>* s t \<and> waitChan t = 0 \<and> run_pc t = run_pc s \<and>
           stopper t = stopper s \<and> p_stop t = p_stop s \<and> p_wg t = p_wg s \<and> ping_inv M t"
  using assms
proof (induction n arbitrary: s rule: less_induct)
  case (less n s)
  show ?case
  proof (cases "JRelease \<in># jobs s")
    case True
    let ?s' = "s\<lparr>jobs := jobs s - {#JRelease#}, waitChan := waitChan s - 1\<rparr>"
    have st: "ping_step M s ?s'" using True by (rule ping_step.release)
    have inv: "ping_inv M ?s'" using ping_step_inv [OF st less.prems(1)] .
    have "count (jobs s) JRelease > 0" using True by simp
    then have "2 * count (jobs ?s') JProbe + count (jobs ?s') JRelease < n" using less.prems(2) by simp
    from less.IH [OF this inv refl] obtain t where "(ping_step M)\<^sup>*\<^sup>* ?s' t" "waitChan t = 0"
      "run_pc t = run_pc s" "stopper t = stopper s" "p_stop t = p_stop s" "p_wg t = p_wg s" "ping_inv M t"
      by auto
    with st show ?thesis by (meson converse_rtranclp_into_rtranclp)
  next
    case noRel: False
    show ?thesis
    proof (cases "JProbe \<in># jobs s")
      case True
      let ?s' = "(ping_cycle (scripted []) s)\<lparr>jobs := add_mset JRelease (jobs s - {#JProbe#})\<rparr>"
      have st: "ping_step M s ?s'" using True by (rule ping_step.probe)
      have inv: "ping_inv M ?s'" using ping_step_inv [OF st less.prems(1)] .
      have c: "count (jobs s) JProbe > 0" using True by simp
      have "count (jobs ?s') JProbe = count (jobs s) JProbe - 1"
        "count (jobs ?s') JRelease = count (jobs s) JRelease + 1" by simp_all
      with c have "2 * count (jobs ?s') JProbe + count (jobs ?s') JRelease < n"
        using less.prems(2) by linarith
      from less.IH [OF this inv refl] obtain t where "(ping_step M)\<^sup>*\<^sup>* ?s' t" "waitChan t = 0"
        "run_pc t = run_pc s" "stopper t = stopper s" "p_stop t = p_stop s" "p_wg t = p_wg s" "ping_inv M t"
        by auto
      with st show ?thesis by (meson converse_rtranclp_into_rtranclp)
    next
      case False
      with noRel have "jobs s = {#}" by (metis job_pc.exhaust multiset_nonemptyE)
      then have "waitChan s = 0" using less.prems(1) by (simp add: ping_inv_def)
      with less.prems(1) show ?thesis by blast
    qed
  qed
qed

lemma ping_stop_from_select:
  assumes "ping_inv M u" "stopper u = SWaiting" "run_pc u = LSelect"
  shows "\<exists>t. (ping_step M)\<^sup>*\<^sup>* u t \<and> stopper t = SReturned"
proof -
  have st: "p_stop u" "p_wg u = 1" using assms by (auto simp: ping_inv_def)
  let ?e = "u\<lparr>run_pc := LExited, p_wg := p_wg u - 1\<rparr>"
  have s1: "ping_step M u ?e" using assms(3) st(1) by (rule ping_step.loop_exit)
  have s2: "ping_step M ?e (?e\<lparr>stopper := SReturned\<rparr>)"
    using assms(2) st(2) by (intro ping_step.stop_return) simp_all
  from s1 s2 show ?thesis by (intro exI [of _ "?e\<lparr>stopper := SReturned\<rparr>"]) auto
qed

text \<open>C19: Stop returns: with at least one slot in the pool, from every reachable state in which a caller is blocked in Stop there is a run of the target in which Stop returns (the in-flight cycles drain, the run loop sees the closed channel and calls wg.Done).\<close>

theorem ping_stop_returns:
  assumes "0 < M" "ping_reachable M s" "stopper s = SWaiting"
  shows "\<exists>t. (ping_step M)\<^sup>*\<^sup>* s t \<and> stopper t = SReturned"
proof -
  obtain d where d: "(ping_step M)\<^sup>*\<^sup>* s d" "waitChan d = 0" "run_pc d = run_pc s"
    "stopper d = SWaiting" "p_wg d = p_wg s" "ping_inv M d"
    using ping_drain [OF ping_reachable_inv [OF assms(2)] refl] assms(3) by auto
  have "\<exists>t. (ping_step M)\<^sup>*\<^sup>* d t \<and> stopper t = SReturned"
  proof (cases "run_pc d")
    case LSelect then show ?thesis using ping_stop_from_select d(4,6) by blast
  next
    case LDelay
    let ?u = "d\<lparr>run_pc := LSelect\<rparr>"
    have st: "ping_step M d ?u" using LDelay by (rule ping_step.delay_done)
    from ping_stop_from_select [of M ?u] ping_step_inv [OF st d(6)] d(4)
    obtain t where "(ping_step M)\<^sup>*\<^sup>* ?u t" "stopper t = SReturned" by auto
    with st show ?thesis by (meson converse_rtranclp_into_rtranclp)
  next
    case LSend
    let ?u = "d\<lparr>run_pc := LSelect, waitChan := Suc (waitChan d), jobs := add_mset JProbe (jobs d)\<rparr>"
    have st: "ping_step M d ?u" using LSend d(2) assms(1) by (intro ping_step.dispatch) simp_all
    from ping_stop_from_select [of M ?u] ping_step_inv [OF st d(6)] d(4)
    obtain t where "(ping_step M)\<^sup>*\<^sup>* ?u t" "stopper t = SReturned" by auto
    with st show ?thesis by (meson converse_rtranclp_into_rtranclp)
  next
    case LExited
    then have "p_wg d = 0" using d(6) by (simp add: ping_inv_def)
    then have "ping_step M d (d\<lparr>stopper := SReturned\<rparr>)" using d(4) by (intro ping_step.stop_return)
    then show ?thesis by (intro exI [of _ "d\<lparr>stopper := SReturned\<rparr>"]) auto
  qed
  with d(1) show ?thesis by (meson rtranclp_trans)
qed

lemma ping_cycle_config [simp]:
  "p_host (ping_cycle e s) = p_host s" "p_ip (ping_cycle e s) = p_ip s"
  "p_srcAddr (ping_cycle e s) = p_srcAddr s" "p_count (ping_cycle e s) = p_count s"
  "p_interval (ping_cycle e s) = p_interval s" "p_timeout (ping_cycle e s) = p_timeout s"
  by (simp_all add: ping_cycle_def ping_publish_def Let_def split: prod.splits)

lemma ping_reachable_steps: "(ping_step M)\<^sup>*\<^sup>* s t \<Longrightarrow> ping_reachable M s \<Longrightarrow> ping_reachable M t"
  by (induction rule: rtranclp_induct) (auto intro: ping_reachable.step)

lemma ping_one_cycle:
  assumes "run_pc u = LSelect" "waitChan u < M"
  shows "\<exists>u'. (ping_step M)\<^sup>*\<^sup>* u u' \<and> run_pc u' = LSelect \<and> waitChan u' = waitChan u \<and>
     heap u' (Compute u') = fst (Ping e (p_host u) (p_ip u) (p_srcAddr u) (p_count u) (p_interval u)
                                  (p_timeout u) (fst (IcmpID_Get (icmp u)))) \<and>
     p_host u' = p_host u \<and> p_ip u' = p_ip u \<and> p_srcAddr u' = p_srcAddr u \<and> p_count u' = p_count u \<and>
     p_interval u' = p_interval u \<and> p_timeout u' = p_timeout u"
proof -
  let ?u1 = "u\<lparr>run_pc := LSend\<rparr>"
  let ?u2 = "?u1\<lparr>run_pc := LSelect, waitChan := Suc (waitChan ?u1), jobs := add_mset JProbe (jobs ?u1)\<rparr>"
  let ?u3 = "(ping_cycle e ?u2)\<lparr>jobs := add_mset JRelease (jobs ?u2 - {#JProbe#})\<rparr>"
  let ?u4 = "?u3\<lparr>jobs := jobs ?u3 - {#JRelease#}, waitChan := waitChan ?u3 - 1\<rparr>"
  have "ping_step M u ?u1" using assms(1) by (rule ping_step.tick)
  moreover have "ping_step M ?u1 ?u2" using assms(2) by (intro ping_step.dispatch) simp_all
  moreover have "ping_step M ?u2 ?u3" by (intro ping_step.probe) simp
  moreover have "ping_step M ?u3 ?u4" by (intro ping_step.release) simp
  ultimately have "(ping_step M)\<^sup>*\<^sup>* u ?u4" by auto
  moreover have "heap ?u4 (Compute ?u4) = heap (ping_cycle e ?u2) (Compute (ping_cycle e ?u2))"
    by (simp add: Compute_def)
  ultimately show ?thesis using assms by (intro exI [of _ ?u4]) (simp add: ping_cycle_result)
qed

lemma ping_stop_run:
  assumes "0 < M"
  shows "\<exists>w3 w5. ping_reachable M w3 \<and> stopper w3 = SWaiting \<and>
           ping_reachable M w5 \<and> stopper w5 = SReturned \<and> jobs w5 = {#JProbe#} \<and> waitChan w5 = 1"
proof -
  let ?s0 = "NewPing 0 0 ''t'' ''h'' ''10.0.0.1'' [] 1000000000 1000000000 3 Map.empty"
  let ?a1 = "?s0\<lparr>run_pc := LSend\<rparr>"
  let ?a2 = "?a1\<lparr>run_pc := LSelect, waitChan := Suc (waitChan ?a1), jobs := add_mset JProbe (jobs ?a1)\<rparr>"
  let ?a3 = "(?a2\<lparr>p_stop := True\<rparr>)\<lparr>stopper := SWaiting\<rparr>"
  let ?a4 = "?a3\<lparr>run_pc := LExited, p_wg := p_wg ?a3 - 1\<rparr>"
  let ?a5 = "?a4\<lparr>stopper := SReturned\<rparr>"
  have r0: "ping_reachable M ?s0" by (rule ping_reachable.init)
  have "ping_step M ?s0 ?a1" by (intro ping_step.tick) (simp add: NewPing_def)
  moreover have "ping_step M ?a1 ?a2" using assms by (intro ping_step.dispatch) (simp_all add: NewPing_def)
  moreover have "ping_step M ?a2 ?a3"
    by (rule ping_step.stop_call) (simp_all add: NewPing_def ping_close_stop_def close_chan_def)
  ultimately have r3: "ping_reachable M ?a3" using r0 by (blast intro: ping_reachable.step)
  have "ping_step M ?a3 ?a4" by (intro ping_step.loop_exit) simp_all
  moreover have "ping_step M ?a4 ?a5" by (intro ping_step.stop_return) (simp_all add: NewPing_def)
  ultimately have r5: "ping_reachable M ?a5" using r3 by (blast intro: ping_reachable.step)
  show ?thesis using r3 r5 by (intro exI [of _ ?a3] exI [of _ ?a5]) (simp add: NewPing_def)
qed

lemma ping_init_select:
  "run_pc (NewPing c 0 name host ip srcAddr interval timeout n labels) = LSelect"
  "waitChan (NewPing c 0 name host ip srcAddr interval timeout n labels) = 0"
  "p_count (NewPing c 0 name host ip srcAddr interval timeout n labels) = n"
  "p_ip (NewPing c 0 name host ip srcAddr interval timeout n labels) = ip"
  "p_srcAddr (NewPing c 0 name host ip srcAddr interval timeout n labels) = srcAddr"
  "p_timeout (NewPing c 0 name host ip srcAddr interval timeout n labels) = timeout"
  "p_interval (NewPing c 0 name host ip srcAddr interval timeout n labels) = interval"
  by (simp_all add: NewPing_def)

lemma lost_all_scripted_nil: "\<forall>k q. reply_sample ip (scripted [] k q) = None"
  by (simp add: scripted_def reply_sample_def)

lemma Ping_fail_all_lost:
  "SntFailSummary (fst (Ping (scripted []) addr ip srcAddr n interval timeout icmpID)) = n"
  by (simp add: Ping_fields cycle_attempts_def samples_of_all_lost [OF lost_all_scripted_nil])

lemma Ping_fail_all_answered:
  "0 \<le> n \<Longrightarrow> SntFailSummary (fst (Ping (answer_all ip (\<lambda>_. L)) addr ip srcAddr n interval timeout icmpID)) = 0"
  by (simp add: Ping_fields cycle_samples_answer_all)

text \<open>C17: The failure counter a reader sees is not monotone: there is a run in which the published SntFailSummary is 3 after a cycle with every reply lost and 0 after a later cycle with every reply received.\<close>

theorem ping_fail_counter_decreases:
  assumes "0 < M"
  shows "\<exists>s1 s2. ping_reachable M s1 \<and> (ping_step M)\<^sup>*\<^sup>* s1 s2 \<and>
           SntFailSummary (heap s1 (Compute s1)) = 3 \<and> SntFailSummary (heap s2 (Compute s2)) = 0"
proof -
  let ?s0 = "NewPing 0 0 ''t'' ''h'' ''10.0.0.1'' [] 1000000000 1000000000 3 Map.empty"
  obtain s1 where s1: "(ping_step M)\<^sup>*\<^sup>* ?s0 s1" "run_pc s1 = LSelect" "waitChan s1 = 0"
    "heap s1 (Compute s1) = fst (Ping (scripted []) (p_host ?s0) (p_ip ?s0) (p_srcAddr ?s0) (p_count ?s0)
        (p_interval ?s0) (p_timeout ?s0) (fst (IcmpID_Get (icmp ?s0))))"
    "p_host s1 = p_host ?s0" "p_ip s1 = p_ip ?s0" "p_srcAddr s1 = p_srcAddr ?s0" "p_count s1 = p_count ?s0"
    "p_interval s1 = p_interval ?s0" "p_timeout s1 = p_timeout ?s0"
    using ping_one_cycle [of ?s0 M "scripted []"] assms by (auto simp: ping_init_select)
  obtain s2 where s2: "(ping_step M)\<^sup>*\<^sup>* s1 s2"
    "heap s2 (Compute s2) = fst (Ping (answer_all ''10.0.0.1'' (\<lambda>_. 5000000)) (p_host s1) (p_ip s1)
        (p_srcAddr s1) (p_count s1) (p_interval s1) (p_timeout s1) (fst (IcmpID_Get (icmp s1))))"
    using ping_one_cycle [of s1 M "answer_all ''10.0.0.1'' (\<lambda>_. 5000000)"] s1(2,3) assms by auto
  have r1: "ping_reachable M s1" using s1(1) ping_reachable.init by (rule ping_reachable_steps)
  have "SntFailSummary (heap s1 (Compute s1)) = 3" using s1(4) by (simp add: Ping_fail_all_lost ping_init_select)
  moreover have "SntFailSummary (heap s2 (Compute s2)) = 0"
    using s2(2) s1(6,8) by (simp add: Ping_fail_all_answered ping_init_select)
  ultimately show ?thesis using r1 s2(1) by blast
qed

theorem ping_fail_counter_decreases_witness:
  "(0::nat) < 1 \<and> (\<exists>s1 s2. ping_reachable 1 s1 \<and> (ping_step 1)\<^sup>*\<^sup>* s1 s2 \<and>
      SntFailSummary (heap s1 (Compute s1)) = 3 \<and> SntFailSummary (heap s2 (Compute s2)) = 0)"
  using ping_fail_counter_decreases [of 1] by simp

text \<open>C21: Stop does not wait for in-flight cycles: there is a reachable state in which Stop has returned and a cycle that was already running still publishes a new result object.\<close>

theorem ping_publish_after_stop:
  assumes "0 < M"
  shows "\<exists>s s'. ping_reachable M s \<and> stopper s = SReturned \<and> ping_step M s s' \<and> Compute s' \<noteq> Compute s"
proof -
  obtain w where w: "ping_reachable M w" "stopper w = SReturned" "jobs w = {#JProbe#}"
    using ping_stop_run [OF assms] by blast
  let ?w' = "(ping_cycle (scripted []) w)\<lparr>jobs := add_mset JRelease (jobs w - {#JProbe#})\<rparr>"
  have st: "ping_step M w ?w'" using w(3) by (intro ping_step.probe) simp
  have "p_result w < next_addr w" using ping_reachable_inv [OF w(1)] by (simp add: ping_inv_def)
  then have "Compute ?w' \<noteq> Compute w" by (simp add: Compute_def)
  with w(1,2) st show ?thesis by blast
qed

theorem ping_publish_after_stop_witness:
  "(0::nat) < 1 \<and>
   (\<exists>s s'. ping_reachable 1 s \<and> stopper s = SReturned \<and> ping_step 1 s s' \<and> Compute s' \<noteq> Compute s)"
  using ping_publish_after_stop [of 1] by simp

theorem ping_sent_not_cumulative_witness:
  "\<exists>s. ping_reachable 1 s \<and> Compute s \<noteq> 0 \<and> p_count s = 3 \<and> SntSummary (heap s (Compute s)) = 3"
proof -
  let ?s0 = "NewPing 0 0 ''t'' ''h'' ''10.0.0.1'' [] 1000000000 1000000000 3 Map.empty"
  obtain s1 where s1: "(ping_step 1)\<^sup>*\<^sup>* ?s0 s1" "p_count s1 = p_count ?s0"
    "heap s1 (Compute s1) = fst (Ping (scripted []) (p_host ?s0) (p_ip ?s0) (p_srcAddr ?s0) (p_count ?s0)
        (p_interval ?s0) (p_timeout ?s0) (fst (IcmpID_Get (icmp ?s0))))"
    using ping_one_cycle [of ?s0 1 "scripted []"] by (auto simp: ping_init_select)
  have r1: "ping_reachable 1 s1" using s1(1) ping_reachable.init by (rule ping_reachable_steps)
  have "SntSummary (heap s1 (Compute s1)) = 3" using s1(3) by (simp add: Ping_fields ping_init_select)
  moreover have "p_count s1 = 3" using s1(2) by (simp add: ping_init_select)
  ultimately have "Compute s1 \<noteq> 0" using ping_sent_not_cumulative [OF r1] by (auto split: if_splits)
  with r1 s1(2) show ?thesis using ping_sent_not_cumulative [OF r1] by (auto simp: ping_init_select)
qed

theorem ping_stop_no_new_cycles_witness:
  "\<exists>s. ping_reachable 1 s \<and> stopper s = SReturned \<and> (ping_step 1)\<^sup>*\<^sup>* s s \<and>
       run_pc s = LExited \<and> count (jobs s) JProbe \<le> count (jobs s) JProbe"
proof -
  obtain w where w: "ping_reachable 1 w" "stopper w = SReturned"
    using ping_stop_run [of 1] by auto
  from ping_stop_no_new_cycles [OF w rtranclp.rtrancl_refl] w show ?thesis by blast
qed

theorem ping_stop_twice_panics_witness:
  "\<exists>s. ping_reachable 1 s \<and> stopper s \<noteq> SIdle \<and> ping_close_stop s = Inl CloseOfClosedChannel"
proof -
  obtain w where w: "ping_reachable 1 w" "stopper w = SReturned" using ping_stop_run [of 1] by auto
  then have "stopper w \<noteq> SIdle" by simp
  with w(1) ping_stop_twice_panics [OF w(1) this] show ?thesis by blast
qed

theorem ping_pool_bound_witness:
  "\<exists>s. ping_reachable 1 s \<and> size (jobs s) = waitChan s \<and> size (jobs s) \<le> 1 \<and> size (jobs s) = 1"
proof -
  obtain w where w: "ping_reachable 1 w" "jobs w = {#JProbe#}" using ping_stop_run [of 1] by auto
  from ping_pool_bound [OF w(1)] w show ?thesis by (intro exI [of _ w]) simp
qed

theorem ping_stop_returns_witness:
  "(0::nat) < 1 \<and> (\<exists>s. ping_reachable 1 s \<and> stopper s = SWaiting \<and>
     (\<exists>t. (ping_step 1)\<^sup>*\<^sup>* s t \<and> stopper t = SReturned))"
proof -
  obtain w where w: "ping_reachable 1 w" "stopper w = SWaiting" using ping_stop_run [of 1] by auto
  from ping_stop_returns [OF _ w] w show ?thesis by auto
qed

text \<open>C16: The object a reader obtained from Compute is mutated afterwards: when the next cycle publishes, the object at the old pointer receives the old counters plus the new cycle's counters, so a caller holding the snapshot sees its counters change outside its read lock.\<close>

theorem ping_reader_sees_mutation:
  assumes "ping_reachable M s"
  shows "heap (ping_cycle e s) (Compute s) =
     (let old = heap s (Compute s);
          data = fst (Ping e (p_host s) (p_ip s) (p_srcAddr s) (p_count s) (p_interval s) (p_timeout s)
                        (fst (IcmpID_Get (icmp s))))
      in old\<lparr>SntSummary := SntSummary old + SntSummary data,
             SntFailSummary := SntFailSummary old + SntFailSummary data,
             SntTimeSummary := SntTimeSummary old + SntTimeSummary data\<rparr>)"
  using ping_reachable_inv [OF assms] by (intro ping_cycle_old) (simp add: ping_inv_def)

theorem ping_reader_sees_mutation_witness:
  "let s = NewPing 0 0 ''t'' ''h'' ''10.0.0.1'' [] 1000000000 1000000000 3 Map.empty
   in ping_reachable 1 s \<and> heap s (Compute s) = zero_PingResult \<and>
      SntSummary (heap (ping_cycle (scripted []) s) (Compute s)) = 3 \<and>
      SntFailSummary (heap (ping_cycle (scripted []) s) (Compute s)) = 3"
proof -
  let ?s = "NewPing 0 0 ''t'' ''h'' ''10.0.0.1'' [] 1000000000 1000000000 3 Map.empty"
  have r: "ping_reachable 1 ?s" by (rule ping_reachable.init)
  have z: "heap ?s (Compute ?s) = zero_PingResult" by (simp add: NewPing_def Compute_def)
  show ?thesis
    using ping_reader_sees_mutation [OF r, of "scripted []"] r z
    by (simp add: Let_def zero_PingResult_def Ping_fields ping_init_select cycle_attempts_def
        samples_of_all_lost [OF lost_all_scripted_nil])
qed

end
