(* ===== verification/TargetMtr.thy ===== *)
theory TargetMtr
  imports Mtr IcmpID Scheduler
begin

text \<open>
  The MTR target, \<open>src/target/target_mtr.go\<close>: the \<open>MTR\<close> struct, \<open>NewMTR\<close>, the
  \<open>run\<close> goroutine, which starts a trace goroutine on every tick with no bound on how many
  run at once, \<open>mtr\<close> (one trace and its merge into the hop summary under the lock),
  \<open>Stop\<close> and the accessors.

  Two kinds of object are shared by pointer in the code: the \<open>MtrResult\<close> that
  \<open>t.result\<close> points to, and the Go map \<open>HopSummaryMap\<close> inside it, which \<open>mtr\<close>
  moves from the old result into the new one. Both live in explicit heaps here, so that
  what a caller holding an old result sees is part of the model. The trace itself,
  \<open>mtr.Mtr\<close> (not under src/), is a parameter of the step relation: any function from
  the probe's arguments to a result pointer, nil included.
\<close>

section \<open>State\<close>

text \<open>The \<open>MTR\<close> struct, lines 17--32 (logger and lock as for the ping target; the
  identifier allocator is the shared counter of the state below).\<close>

record MTR =
  m_name :: string
  m_host :: string
  m_srcAddr :: string
  m_interval :: duration
  m_timeout :: duration
  m_maxHops :: int
  m_count :: int
  m_labels :: "string \<rightharpoonup> string"
  m_result :: nat
  m_stop :: bool
  m_wg :: nat

text \<open>An \<open>MtrResult\<close> object on the heap: its map field is a reference to a Go map.\<close>

record mtr_obj =
  o_DestAddress :: string
  o_Hops :: "MtrHop list"
  o_map :: nat

text \<open>The target, its goroutines, the result objects and the maps. \<open>mjobs\<close> counts the
  running \<open>mtr\<close> goroutines; \<open>m_crash\<close> records a panic, which ends the process.\<close>

record mtr_sys = MTR +
  mrun_pc :: loop_pc
  mjobs :: nat
  mstopper :: stop_pc
  objs :: "nat \<Rightarrow> mtr_obj"
  maps :: "nat \<Rightarrow> summary_map"
  m_next :: nat
  m_icmp :: icmp_counter
  m_crash :: "go_panic option"

text \<open>The value of the result at an address: the object with its map read through the
  reference.\<close>

definition deref :: "mtr_sys \<Rightarrow> nat \<Rightarrow> MtrResult" where
  "deref s a =
     \<lparr>mtr_DestAddress = o_DestAddress (objs s a), Hops = o_Hops (objs s a),
      HopSummaryMap = maps s (o_map (objs s a))\<rparr>"

text \<open>\<open>NewMTR\<close>, lines 35--56: the result \<open>&mtr.MtrResult{HopSummaryMap: {}}\<close> at
  address 0 with the empty map at map address 0, \<open>wg.Add(1)\<close>, the \<open>run\<close> goroutine
  started. The error result is the constant \<open>nil\<close>.\<close>

definition NewMTR ::
  "icmp_counter \<Rightarrow> duration \<Rightarrow> string \<Rightarrow> string \<Rightarrow> string \<Rightarrow> duration \<Rightarrow> duration \<Rightarrow>
   int \<Rightarrow> int \<Rightarrow> (string \<rightharpoonup> string) \<Rightarrow> mtr_sys" where
  "NewMTR c startupDelay name host srcAddr interval timeout maxHops n_count labels =
     \<lparr>m_name = name, m_host = host, m_srcAddr = srcAddr, m_interval = interval,
      m_timeout = timeout, m_maxHops = maxHops, m_count = n_count, m_labels = labels,
      m_result = 0, m_stop = False, m_wg = 1,
      mrun_pc = (if 0 < startupDelay then LDelay else LSelect), mjobs = 0, mstopper = SIdle,
      objs = (\<lambda>a. \<lparr>o_DestAddress = [], o_Hops = [], o_map = 0\<rparr>), maps = (\<lambda>a. Map.empty),
      m_next = 1, m_icmp = c, m_crash = None\<rparr>"

section \<open>Operations\<close>

text \<open>The critical section of \<open>mtr\<close>, lines 98--115, for a non-nil \<open>data\<close>: keep the
  map of the current result (line 99), point \<open>t.result\<close> at the new object (line 100),
  merge the hops into the kept map in place (lines 101--112), and store the map reference
  in the new object (line 113).\<close>

definition mtr_publish :: "MtrResult \<Rightarrow> mtr_sys \<Rightarrow> mtr_sys" where
  "mtr_publish data s =
     (let mp = o_map (objs s (m_result s)); a = m_next s
      in s\<lparr>objs := (objs s)(a := \<lparr>o_DestAddress = mtr_DestAddress data, o_Hops = Hops data, o_map = mp\<rparr>),
           maps := (maps s)(mp := merge_hops (maps s mp) (Hops data)),
           m_result := a, m_next := Suc a\<rparr>)"

text \<open>\<open>mtr\<close>, lines 85--116: take an identifier, trace with \<open>tr\<close> (the errors are only
  logged), then publish; a nil result panics at \<open>data.Hops\<close> (line 101).\<close>

type_synonym tracer = "string \<Rightarrow> string \<Rightarrow> int \<Rightarrow> int \<Rightarrow> duration \<Rightarrow> int \<Rightarrow> MtrResult option"

definition mtr_cycle :: "tracer \<Rightarrow> mtr_sys \<Rightarrow> go_panic + mtr_sys" where
  "mtr_cycle tr s =
     (let (icmpID, c) = IcmpID_Get (m_icmp s);
          data = tr (m_host s) (m_srcAddr s) (m_maxHops s) (m_count s) (m_timeout s) icmpID
      in case data of
           None \<Rightarrow> Inl NilDereference
         | Some d \<Rightarrow> Inr (mtr_publish d (s\<lparr>m_icmp := c\<rparr>)))"

text \<open>\<open>Compute\<close>, lines 119--127, and the other accessors, lines 129--148.\<close>

definition MCompute :: "mtr_sys \<Rightarrow> nat" where "MCompute s = m_result s"
definition MName :: "mtr_sys \<Rightarrow> string" where "MName s = m_name s"
definition MHost :: "mtr_sys \<Rightarrow> string" where "MHost s = m_host s"
definition MLabels :: "mtr_sys \<Rightarrow> string \<rightharpoonup> string" where "MLabels s = m_labels s"

text \<open>The \<open>close(t.stop)\<close> of \<open>Stop\<close>, line 81.\<close>

definition mtr_close_stop :: "mtr_sys \<Rightarrow> go_panic + mtr_sys" where
  "mtr_close_stop s =
     (case close_chan (m_stop s) of Inl e \<Rightarrow> Inl e | Inr b \<Rightarrow> Inr (s\<lparr>m_stop := b\<rparr>))"

section \<open>The goroutines as a step relation\<close>

text \<open>
  As for the ping target, one rule per transition, each a critical section; no rule
  fires once the process has panicked:
  \<^item> \<open>delay_done\<close>: the startup \<open>select\<close> ends (lines 59--64);
  \<^item> \<open>tick\<close>: the loop takes the ticker and starts \<open>go t.mtr()\<close> at once (lines 73--74);
  \<^item> \<open>loop_exit\<close>: the loop takes the closed stop channel, \<open>wg.Done()\<close> (lines 69--72);
  \<^item> \<open>probe\<close>, \<open>probe_panic\<close>: a trace goroutine runs \<open>mtr\<close> against any tracer and
    ends, or panics;
  \<^item> \<open>stop_call\<close>, \<open>stop_return\<close>: \<open>Stop\<close>, lines 80--83;
  \<^item> \<open>other_get\<close>: another target takes an identifier from the shared allocator.
\<close>

inductive mtr_step :: "mtr_sys \<Rightarrow> mtr_sys \<Rightarrow> bool" where
  delay_done: "m_crash s = None \<Longrightarrow> mrun_pc s = LDelay \<Longrightarrow> mtr_step s (s\<lparr>mrun_pc := LSelect\<rparr>)"
| tick: "m_crash s = None \<Longrightarrow> mrun_pc s = LSelect \<Longrightarrow> mtr_step s (s\<lparr>mjobs := Suc (mjobs s)\<rparr>)"
| loop_exit: "m_crash s = None \<Longrightarrow> mrun_pc s = LSelect \<Longrightarrow> m_stop s \<Longrightarrow>
    mtr_step s (s\<lparr>mrun_pc := LExited, m_wg := m_wg s - 1\<rparr>)"
| probe: "m_crash s = None \<Longrightarrow> 0 < mjobs s \<Longrightarrow> mtr_cycle tr s = Inr s' \<Longrightarrow>
    mtr_step s (s'\<lparr>mjobs := mjobs s - 1\<rparr>)"
| probe_panic: "m_crash s = None \<Longrightarrow> 0 < mjobs s \<Longrightarrow> mtr_cycle tr s = Inl e \<Longrightarrow>
    mtr_step s (s\<lparr>m_crash := Some e\<rparr>)"
| stop_call: "m_crash s = None \<Longrightarrow> mstopper s = SIdle \<Longrightarrow> mtr_close_stop s = Inr s' \<Longrightarrow>
    mtr_step s (s'\<lparr>mstopper := SWaiting\<rparr>)"
| stop_return: "m_crash s = None \<Longrightarrow> mstopper s = SWaiting \<Longrightarrow> m_wg s = 0 \<Longrightarrow>
    mtr_step s (s\<lparr>mstopper := SReturned\<rparr>)"
| other_get: "m_crash s = None \<Longrightarrow> mtr_step s (s\<lparr>m_icmp := m_icmp s + 1\<rparr>)"

text \<open>The states reachable from a freshly constructed target.\<close>

inductive mtr_reachable :: "mtr_sys \<Rightarrow> bool" where
  init: "mtr_reachable (NewMTR c startupDelay name host srcAddr interval timeout maxHops n_count labels)"
| step: "mtr_reachable s \<Longrightarrow> mtr_step s s' \<Longrightarrow> mtr_reachable s'"

section \<open>Invariant\<close>

text \<open>The current result is allocated and holds the map created by the constructor; the
  stop channel, the wait group and the caller of Stop agree as for the ping target; the
  run loop never blocks on a send (there is no token pool).\<close>

definition mtr_inv :: "mtr_sys \<Rightarrow> bool" where
  "mtr_inv s \<longleftrightarrow>
     mrun_pc s \<noteq> LSend \<and> m_result s < m_next s \<and> o_map (objs s (m_result s)) = 0 \<and>
     (m_stop s \<longleftrightarrow> mstopper s \<noteq> SIdle) \<and>
     m_wg s = (if mrun_pc s = LExited then 0 else 1) \<and>
     (mstopper s = SReturned \<longrightarrow> mrun_pc s = LExited)"

section \<open>Properties of the MTR target\<close>

lemma mtr_publish_fields [simp]:
  "mrun_pc (mtr_publish d s) = mrun_pc s" "mjobs (mtr_publish d s) = mjobs s"
  "mstopper (mtr_publish d s) = mstopper s" "m_stop (mtr_publish d s) = m_stop s"
  "m_wg (mtr_publish d s) = m_wg s" "m_crash (mtr_publish d s) = m_crash s"
  "m_result (mtr_publish d s) = m_next s" "m_next (mtr_publish d s) = Suc (m_next s)"
  "o_map (objs (mtr_publish d s) a) =
     (if a = m_next s then o_map (objs s (m_result s)) else o_map (objs s a))"
  by (simp_all add: mtr_publish_def Let_def)

lemma mtr_cycle_Inr:
  "mtr_cycle tr s = Inr s' \<longleftrightarrow>
     (\<exists>d. tr (m_host s) (m_srcAddr s) (m_maxHops s) (m_count s) (m_timeout s)
            (fst (IcmpID_Get (m_icmp s))) = Some d \<and>
          s' = mtr_publish d (s\<lparr>m_icmp := snd (IcmpID_Get (m_icmp s))\<rparr>))"
  by (auto simp: mtr_cycle_def Let_def split: prod.splits option.splits)

lemma mtr_inv_init: "mtr_inv (NewMTR c d name host srcAddr interval timeout maxHops n labels)"
  by (simp add: mtr_inv_def NewMTR_def)

lemma mtr_step_inv: "mtr_step s s' \<Longrightarrow> mtr_inv s \<Longrightarrow> mtr_inv s'"
  by (induction rule: mtr_step.induct)
     (auto simp: mtr_inv_def mtr_cycle_Inr mtr_close_stop_def close_chan_def split: if_splits)

lemma mtr_reachable_inv: "mtr_reachable s \<Longrightarrow> mtr_inv s"
  by (induction rule: mtr_reachable.induct) (auto intro: mtr_inv_init mtr_step_inv)

lemma mtr_step_crash_free: "mtr_step s t \<Longrightarrow> m_crash s = None"
  by (induction rule: mtr_step.induct) auto

lemma mtr_publish_heaps:
  "objs (mtr_publish d s) a =
     (if a = m_next s
      then \<lparr>o_DestAddress = mtr_DestAddress d, o_Hops = Hops d, o_map = o_map (objs s (m_result s))\<rparr>
      else objs s a)"
  "maps (mtr_publish d s) =
     (maps s)(o_map (objs s (m_result s)) := merge_hops (maps s (o_map (objs s (m_result s)))) (Hops d))"
  by (simp_all add: mtr_publish_def Let_def)

lemma mtr_publish_current:
  "deref (mtr_publish d s) (MCompute (mtr_publish d s)) =
     d\<lparr>HopSummaryMap := merge_hops (HopSummaryMap (deref s (MCompute s))) (Hops d)\<rparr>"
  by (simp add: deref_def MCompute_def mtr_publish_def Let_def)

lemma mtr_step_keys:
  assumes "mtr_step s t"
  shows "dom (HopSummaryMap (deref s (MCompute s))) \<subseteq> dom (HopSummaryMap (deref t (MCompute t)))"
  using assms
proof (induction rule: mtr_step.induct)
  case (probe s tr s')
  then obtain d where "s' = mtr_publish d (s\<lparr>m_icmp := snd (IcmpID_Get (m_icmp s))\<rparr>)"
    by (auto simp: mtr_cycle_Inr)
  then show ?case by (auto simp: mtr_publish_heaps dom_merge_hops deref_def MCompute_def)
qed (auto simp: deref_def MCompute_def mtr_close_stop_def close_chan_def split: sum.splits)

text \<open>C23: Keys of the hop summary are never removed: along every run of the MTR target, every key of the summary map of the current result stays a key.\<close>

theorem mtr_keys_persist:
  assumes "(mtr_step)\<^sup>*\<^sup>* s t"
  shows "dom (HopSummaryMap (deref s (MCompute s))) \<subseteq> dom (HopSummaryMap (deref t (MCompute t)))"
  using assms by (induction rule: rtranclp_induct) (auto dest!: mtr_step_keys)

text \<open>C24: The hop summary map is shared between the old and the new result: after a cycle publishes, Compute returns a new object, and the object a reader obtained before keeps its hops but now reads the merged summary map.\<close>

theorem mtr_snapshot_aliased:
  assumes "mtr_reachable s" "mtr_cycle tr s = Inr s'"
  shows "MCompute s' \<noteq> MCompute s \<and>
         deref s' (MCompute s) = (deref s (MCompute s))\<lparr>HopSummaryMap := HopSummaryMap (deref s' (MCompute s'))\<rparr>"
proof -
  have inv: "mtr_inv s" using assms(1) by (rule mtr_reachable_inv)
  obtain d where s': "s' = mtr_publish d (s\<lparr>m_icmp := snd (IcmpID_Get (m_icmp s))\<rparr>)"
    using assms(2) by (auto simp: mtr_cycle_Inr)
  have ne: "m_result s \<noteq> m_next s" using inv by (simp add: mtr_inv_def)
  show ?thesis using ne unfolding s'
    by (simp add: mtr_publish_heaps MCompute_def deref_def)
qed


lemma mtr_ticks:
  assumes "mrun_pc s = LSelect" "m_crash s = None"
  shows "(mtr_step)\<^sup>*\<^sup>* s (s\<lparr>mjobs := mjobs s + k\<rparr>)"
proof (induction k)
  case 0 then show ?case by simp
next
  case (Suc k)
  have "mtr_step (s\<lparr>mjobs := mjobs s + k\<rparr>) (s\<lparr>mjobs := mjobs s + Suc k\<rparr>)"
    using mtr_step.tick [of "s\<lparr>mjobs := mjobs s + k\<rparr>"] assms by simp
  with Suc show ?case by (rule rtranclp.rtrancl_into_rtrancl)
qed

lemma mtr_reachable_steps: "(mtr_step)\<^sup>*\<^sup>* s t \<Longrightarrow> mtr_reachable s \<Longrightarrow> mtr_reachable t"
  by (induction rule: rtranclp_induct) (auto intro: mtr_reachable.step)

lemma mtr_exit_and_return:
  assumes "mtr_inv u" "m_crash u = None" "mstopper u = SWaiting" "mrun_pc u = LSelect"
  shows "\<exists>t. (mtr_step)\<^sup>*\<^sup>* u t \<and> mstopper t = SReturned"
proof -
  have st: "m_stop u" "m_wg u = 1" using assms(1,3,4) by (auto simp: mtr_inv_def)
  let ?e = "u\<lparr>mrun_pc := LExited, m_wg := m_wg u - 1\<rparr>"
  have "mtr_step u ?e" using assms(2,4) st(1) by (rule mtr_step.loop_exit)
  moreover have "mtr_step ?e (?e\<lparr>mstopper := SReturned\<rparr>)"
    using assms(2,3) st(2) by (intro mtr_step.stop_return) simp_all
  ultimately show ?thesis by (intro exI [of _ "?e\<lparr>mstopper := SReturned\<rparr>"]) auto
qed

text \<open>C25: The MTR target has no concurrency bound: for every n there is a reachable state with n trace cycles running at once (contrast with the token pool of the ping target).\<close>

theorem mtr_unbounded_overlap: "\<exists>s. mtr_reachable s \<and> mjobs s = n"
proof -
  let ?s0 = "NewMTR 0 0 ''t'' ''h'' [] 1000000000 1000000000 30 10 Map.empty"
  have "(mtr_step)\<^sup>*\<^sup>* ?s0 (?s0\<lparr>mjobs := mjobs ?s0 + n\<rparr>)" by (rule mtr_ticks) (simp_all add: NewMTR_def)
  then have "mtr_reachable (?s0\<lparr>mjobs := mjobs ?s0 + n\<rparr>)" using mtr_reachable.init by (rule mtr_reachable_steps)
  then show ?thesis by (intro exI [of _ "?s0\<lparr>mjobs := mjobs ?s0 + n\<rparr>"]) (simp add: NewMTR_def)
qed

text \<open>C26: A nil trace result crashes the process: there is a reachable state in which the merge dereferenced a nil result (line 101) and no goroutine can take a further step.\<close>

theorem mtr_nil_crash:
  "\<exists>s. mtr_reachable s \<and> m_crash s = Some NilDereference \<and> (\<forall>t. \<not> mtr_step s t)"
proof -
  let ?s0 = "NewMTR 0 0 ''t'' ''h'' [] 1000000000 1000000000 30 10 Map.empty"
  let ?s1 = "?s0\<lparr>mjobs := 1\<rparr>"
  have "mtr_step ?s0 ?s1" using mtr_step.tick [of ?s0] by (simp add: NewMTR_def)
  then have r1: "mtr_reachable ?s1" by (rule mtr_reachable.step [OF mtr_reachable.init])
  have "mtr_cycle (\<lambda>_ _ _ _ _ _. None) ?s1 = Inl NilDereference" by (simp add: mtr_cycle_def Let_def split: prod.splits)
  then have "mtr_step ?s1 (?s1\<lparr>m_crash := Some NilDereference\<rparr>)"
    using mtr_step.probe_panic [of ?s1 "\<lambda>_ _ _ _ _ _. None" NilDereference] by (simp add: NewMTR_def)
  with r1 have "mtr_reachable (?s1\<lparr>m_crash := Some NilDereference\<rparr>)" by (rule mtr_reachable.step)
  then show ?thesis by (intro exI [of _ "?s1\<lparr>m_crash := Some NilDereference\<rparr>"]) (auto dest: mtr_step_crash_free)
qed

text \<open>C27: Stop returns for the MTR target: from every reachable state of a live process in which a caller is blocked in Stop, there is a run in which Stop returns; running trace cycles need not finish first.\<close>

theorem mtr_stop_returns:
  assumes "mtr_reachable s" "mstopper s = SWaiting" "m_crash s = None"
  shows "\<exists>t. (mtr_step)\<^sup>*\<^sup>* s t \<and> mstopper t = SReturned"
proof -
  have inv: "mtr_inv s" using assms(1) by (rule mtr_reachable_inv)
  show ?thesis
  proof (cases "mrun_pc s")
    case LSelect then show ?thesis using mtr_exit_and_return inv assms(2,3) by blast
  next
    case LDelay
    let ?u = "s\<lparr>mrun_pc := LSelect\<rparr>"
    have st: "mtr_step s ?u" using assms(3) LDelay by (rule mtr_step.delay_done)
    from mtr_exit_and_return [of ?u] mtr_step_inv [OF st inv] assms(2,3)
    obtain t where "(mtr_step)\<^sup>*\<^sup>* ?u t" "mstopper t = SReturned" by auto
    with st show ?thesis by (meson converse_rtranclp_into_rtranclp)
  next
    case LExited
    then have "m_wg s = 0" using inv by (simp add: mtr_inv_def)
    then have "mtr_step s (s\<lparr>mstopper := SReturned\<rparr>)" using assms(2,3) by (intro mtr_step.stop_return)
    then show ?thesis by (intro exI [of _ "s\<lparr>mstopper := SReturned\<rparr>"]) auto
  next
    case LSend
    then show ?thesis using inv by (simp add: mtr_inv_def)
  qed
qed


lemma mtr_example_run:
  shows "mtr_reachable ((NewMTR 0 0 ''t'' ''h'' [] 1000000000 1000000000 30 10 Map.empty)\<lparr>mjobs := 1\<rparr>)"
    "mtr_cycle (\<lambda>_ _ _ _ _ _. Some r) ((NewMTR 0 0 ''t'' ''h'' [] 1000000000 1000000000 30 10 Map.empty)\<lparr>mjobs := 1\<rparr>) = Inr (mtr_publish r (((NewMTR 0 0 ''t'' ''h'' [] 1000000000 1000000000 30 10 Map.empty)\<lparr>mjobs := 1\<rparr>)\<lparr>m_icmp := 1\<rparr>))"
    "mtr_step ((NewMTR 0 0 ''t'' ''h'' [] 1000000000 1000000000 30 10 Map.empty)\<lparr>mjobs := 1\<rparr>) ((mtr_publish r (((NewMTR 0 0 ''t'' ''h'' [] 1000000000 1000000000 30 10 Map.empty)\<lparr>mjobs := 1\<rparr>)\<lparr>m_icmp := 1\<rparr>))\<lparr>mjobs := 0\<rparr>)"
    "HopSummaryMap (deref ((NewMTR 0 0 ''t'' ''h'' [] 1000000000 1000000000 30 10 Map.empty)\<lparr>mjobs := 1\<rparr>) (MCompute ((NewMTR 0 0 ''t'' ''h'' [] 1000000000 1000000000 30 10 Map.empty)\<lparr>mjobs := 1\<rparr>))) = Map.empty"
proof -
  have "mtr_step (NewMTR 0 0 ''t'' ''h'' [] 1000000000 1000000000 30 10 Map.empty) ((NewMTR 0 0 ''t'' ''h'' [] 1000000000 1000000000 30 10 Map.empty)\<lparr>mjobs := 1\<rparr>)"
    using mtr_step.tick [of "NewMTR 0 0 ''t'' ''h'' [] 1000000000 1000000000 30 10 Map.empty"]
    by (simp add: NewMTR_def)
  then show "mtr_reachable ((NewMTR 0 0 ''t'' ''h'' [] 1000000000 1000000000 30 10 Map.empty)\<lparr>mjobs := 1\<rparr>)" by (rule mtr_reachable.step [OF mtr_reachable.init])
  show c: "mtr_cycle (\<lambda>_ _ _ _ _ _. Some r) ((NewMTR 0 0 ''t'' ''h'' [] 1000000000 1000000000 30 10 Map.empty)\<lparr>mjobs := 1\<rparr>) = Inr (mtr_publish r (((NewMTR 0 0 ''t'' ''h'' [] 1000000000 1000000000 30 10 Map.empty)\<lparr>mjobs := 1\<rparr>)\<lparr>m_icmp := 1\<rparr>))"
    by (simp add: mtr_cycle_def IcmpID_Get_def NewMTR_def)
  show "mtr_step ((NewMTR 0 0 ''t'' ''h'' [] 1000000000 1000000000 30 10 Map.empty)\<lparr>mjobs := 1\<rparr>) ((mtr_publish r (((NewMTR 0 0 ''t'' ''h'' [] 1000000000 1000000000 30 10 Map.empty)\<lparr>mjobs := 1\<rparr>)\<lparr>m_icmp := 1\<rparr>))\<lparr>mjobs := 0\<rparr>)"
    using mtr_step.probe [OF _ _ c] by (simp add: NewMTR_def)
  show "HopSummaryMap (deref ((NewMTR 0 0 ''t'' ''h'' [] 1000000000 1000000000 30 10 Map.empty)\<lparr>mjobs := 1\<rparr>) (MCompute ((NewMTR 0 0 ''t'' ''h'' [] 1000000000 1000000000 30 10 Map.empty)\<lparr>mjobs := 1\<rparr>))) = Map.empty" by (simp add: NewMTR_def deref_def)
qed

lemma merge_hop_nonempty: "merge_hop h m \<noteq> Map.empty"
  by (simp add: merge_hop_def Let_def fun_eq_iff) metis

theorem mtr_snapshot_aliased_witness:
  "\<exists>s s'. mtr_reachable s \<and>
     mtr_cycle (\<lambda>_ _ _ _ _ _. Some \<lparr>mtr_DestAddress = ''h'', Hops = [\<lparr>hop_TTL = 1, hop_AddressFrom = ''10.0.0.1'',
        hop_AddressTo = ''10.0.0.2'', hop_Snt = 10, hop_SumTime = 5000000, hop_SntFail = 0\<rparr>], HopSummaryMap = Map.empty\<rparr>) s
       = Inr s' \<and>
     MCompute s' \<noteq> MCompute s \<and> HopSummaryMap (deref s (MCompute s)) = Map.empty \<and>
     HopSummaryMap (deref s' (MCompute s)) \<noteq> Map.empty"
proof -
  let ?d = "\<lparr>mtr_DestAddress = ''h'', Hops = [\<lparr>hop_TTL = 1, hop_AddressFrom = ''10.0.0.1'',
        hop_AddressTo = ''10.0.0.2'', hop_Snt = 10, hop_SumTime = 5000000, hop_SntFail = 0\<rparr>], HopSummaryMap = Map.empty\<rparr>"
  let ?s1 = "(NewMTR 0 0 ''t'' ''h'' [] 1000000000 1000000000 30 10 Map.empty)\<lparr>mjobs := 1\<rparr>"
  let ?s' = "mtr_publish ?d (?s1\<lparr>m_icmp := 1\<rparr>)"
  note ex = mtr_example_run(1) mtr_example_run(2,3) [of ?d] mtr_example_run(4)
  have al: "MCompute ?s' \<noteq> MCompute ?s1 \<and>
      deref ?s' (MCompute ?s1) = (deref ?s1 (MCompute ?s1))\<lparr>HopSummaryMap := HopSummaryMap (deref ?s' (MCompute ?s'))\<rparr>"
    by (rule mtr_snapshot_aliased [OF ex(1) ex(2)])
  have "HopSummaryMap (deref ?s' (MCompute ?s')) \<noteq> Map.empty"
    by (simp add: mtr_publish_current merge_hop_nonempty)
  with al ex(1,2,4) show ?thesis by (intro exI [of _ ?s1] exI [of _ ?s']) simp
qed

theorem mtr_keys_persist_witness:
  "\<exists>s t. mtr_reachable s \<and> (mtr_step)\<^sup>*\<^sup>* s t \<and> HopSummaryMap (deref s (MCompute s)) = Map.empty \<and>
     dom (HopSummaryMap (deref s (MCompute s))) \<subseteq> dom (HopSummaryMap (deref t (MCompute t))) \<and>
     HopSummaryMap (deref t (MCompute t)) \<noteq> Map.empty"
proof -
  let ?d = "\<lparr>mtr_DestAddress = ''h'', Hops = [\<lparr>hop_TTL = 1, hop_AddressFrom = ''10.0.0.1'',
        hop_AddressTo = ''10.0.0.2'', hop_Snt = 10, hop_SumTime = 5000000, hop_SntFail = 0\<rparr>], HopSummaryMap = Map.empty\<rparr>"
  let ?s1 = "(NewMTR 0 0 ''t'' ''h'' [] 1000000000 1000000000 30 10 Map.empty)\<lparr>mjobs := 1\<rparr>"
  let ?t = "(mtr_publish ?d (?s1\<lparr>m_icmp := 1\<rparr>))\<lparr>mjobs := 0\<rparr>"
  note ex = mtr_example_run(1) mtr_example_run(2,3) [of ?d] mtr_example_run(4)
  have st: "(mtr_step)\<^sup>*\<^sup>* ?s1 ?t" using ex(3) by blast
  have "HopSummaryMap (deref ?t (MCompute ?t)) \<noteq> Map.empty"
    using merge_hop_nonempty by (simp add: deref_def MCompute_def mtr_publish_heaps)
  with mtr_keys_persist [OF st] ex(1,4) st show ?thesis by (intro exI [of _ ?s1] exI [of _ ?t]) simp
qed

theorem mtr_stop_returns_witness:
  "\<exists>s. mtr_reachable s \<and> mstopper s = SWaiting \<and> m_crash s = None \<and>
     (\<exists>t. (mtr_step)\<^sup>*\<^sup>* s t \<and> mstopper t = SReturned)"
proof -
  let ?s0 = "NewMTR 0 0 ''t'' ''h'' [] 1000000000 1000000000 30 10 Map.empty"
  let ?s = "(NewMTR 0 0 ''t'' ''h'' [] 1000000000 1000000000 30 10 Map.empty)\<lparr>m_stop := True\<rparr>\<lparr>mstopper := SWaiting\<rparr>"
  have "mtr_step (NewMTR 0 0 ''t'' ''h'' [] 1000000000 1000000000 30 10 Map.empty) ?s"
    by (rule mtr_step.stop_call) (simp_all add: NewMTR_def mtr_close_stop_def close_chan_def)
  then have r: "mtr_reachable ?s" by (rule mtr_reachable.step [OF mtr_reachable.init])
  have w: "mstopper ?s = SWaiting" "m_crash ?s = None" by (simp_all add: NewMTR_def)
  from mtr_stop_returns [OF r w] r w show ?thesis by blast
qed

end
