(* ===== verification/Spec2Isabelle.thy ===== *)
theory Spec2Isabelle
  imports Ping Mtr TargetPing TargetMtr
begin

text \<open>
  \<^bold>\<open>A verification development of the probing core of network_exporter.\<close>

  \<^bold>\<open>The program.\<close> The core has three parts that interact:
  \<^item> The ping engine, \<open>src/pkg/ping/ping.go\<close>. \<open>Ping\<close> runs one cycle of \<open>count\<close> echo
    attempts through \<open>runPing\<close> and reduces the round-trip times to a \<open>PingResult\<close>.
    \<open>PingString\<close> formats that result.
  \<^item> The ping target, \<open>src/target/target_ping.go\<close>. \<open>NewPing\<close> starts a \<open>run\<close>
    goroutine. On every tick it takes a token from the pool \<open>waitChan\<close> and spawns a
    goroutine that calls \<open>ping\<close>. \<open>ping\<close> takes an ICMP identifier, calls \<open>Ping\<close>, and
    publishes the result under the target's lock. \<open>Stop\<close> closes the stop channel and
    waits for \<open>run\<close>. \<open>Compute\<close> and the accessors read under the read lock.
  \<^item> The MTR target, \<open>src/target/target_mtr.go\<close>. Its structure is the same as the ping
    target's, with two differences. There is no token pool. \<open>mtr\<close> merges each trace
    from the external \<open>mtr.Mtr\<close> into a per-hop summary map that persists across cycles.

  Both targets share the process-wide identifier allocator \<open>common.IcmpID\<close>. The map
  key of a hop is built with \<open>strconv.Itoa\<close>.

  \<^bold>\<open>Theories and correspondence.\<close>
  \<^item> \<open>Prelude\<close>: the Go types the code uses.
    \<^item> \<open>time.Duration\<close> is an \<open>int\<close> of nanoseconds.
    \<^item> A \<open>float64\<close> quotient is a number, NaN or an infinity.
    \<^item> \<open>go_panic\<close> lists the run-time panics the code can raise.
  \<^item> \<open>Ping\<close>: \<open>ping.go\<close>. The records \<open>PingOptions\<close>, \<open>PingReturn\<close> and
    \<open>PingResult\<close> mirror the Go structs.
    \<^item> \<open>echo_req\<close>, \<open>reply_sample\<close> and \<open>record_sample\<close> are the parts of the
      loop body of \<open>runPing\<close> (lines 53--109).
    \<^item> \<open>ping_loop\<close> is its \<open>for\<close> loop, as structural recursion on the number of
      attempts left.
    \<^item> \<open>runPing\<close> and \<open>Ping\<close> assemble the result. \<open>PingString_rtt\<close> is the rtt line
      of \<open>PingString\<close> (line 42), which prints the worst time as min and the best
      time as max.
    \<^item> The dispersion helpers of \<open>pkg/common\<close> are not under src/ and are modelled
      from the spec.
    \<^item> The network is an arbitrary function \<open>echo\<close> from the call index and the
      request to an error or a reply. Every theorem therefore holds for every
      behaviour of the transport.
  \<^item> \<open>Strconv\<close>: \<open>strconv.Itoa\<close> and a parser for its output.
  \<^item> \<open>Mtr\<close>: the value-level merge of \<open>MTR.mtr\<close> (lines 98--115).
    \<^item> \<open>hop_key\<close>, \<open>update_summary\<close> and \<open>merge_hop\<close> model the loop body.
    \<^item> \<open>merge_hops\<close> models the loop. \<open>mtr_commit\<close> models the whole critical
      section, the nil panic included.
  \<^item> \<open>IcmpID\<close>: \<open>common.IcmpID.Get\<close>, a 16-bit word counter that wraps. It is not
    under src/ and is modelled from the spec.
  \<^item> \<open>Scheduler\<close>: the goroutine program points both targets share, and \<open>close\<close>
    of the stop channel.
  \<^item> \<open>TargetPing\<close> and \<open>TargetMtr\<close>: each target as a record extending its Go struct.
    \<^item> The record adds the goroutines' program points, the token count, and a heap of
      result objects. \<open>TargetMtr\<close> also has a heap of Go maps, because the summary
      map is passed by reference.
    \<^item> Each critical section and each channel operation is one rule of an inductive
      step relation (\<open>ping_step\<close>, \<open>mtr_step\<close>). Reachability from the constructor
      is \<open>ping_reachable\<close> or \<open>mtr_reachable\<close>.
    \<^item> The network and the tracer are chosen afresh at every probe step, so every
      interleaving and every network behaviour is a run.
    \<^item> The capacity \<open>MaxConcurrentJobs\<close> is declared outside the sources, so it is
      a parameter \<open>M\<close>.

  \<^bold>\<open>What is proved.\<close>
  \<^item> The ping engine: a refinement of \<open>runPing\<close> against the batch statistics of its
    samples (\<open>ping_stats\<close>). It rests on \<open>ping_loop_attempts\<close>, which splits the loop
    into its attempt transcript followed by a fold of the per-sample bookkeeping.
    \<^item> Its functional behaviour: sequence numbers, sleeps, drop rate, the all-lost
      cycle, uniform latency, and the microsecond truncation of the average.
    \<^item> The divergences from the spec, each for every network: \<open>SntTimeSummary\<close> is
      the range, no sleep follows a lost attempt, and the zero sentinel makes the best
      time miss a 0 ns sample.
  \<^item> The aggregator: a refinement of \<open>merge_hops\<close> against a per-key
    specification.
    \<^item> Key behaviour, monotonicity of the counters, and commutation of two commits on
      the counters.
    \<^item> Injectivity of the hop key, through a parser of \<open>Itoa\<close>'s output.
  \<^item> The allocator: consecutive probe cycles of a ping target get distinct identifiers
    exactly when there are at most 65536 of them.
  \<^item> The ping target, by rule induction over an invariant (\<open>ping_inv\<close>):
    \<^item> the pool bound;
    \<^item> Stop eventually returns, by a measure induction that drains the running
      cycles;
    \<^item> no new cycle starts after Stop;
    \<^item> a second Stop panics;
    \<^item> the published counters are never cumulative, and can decrease;
    \<^item> a reader's object is mutated by the next publication;
    \<^item> cycles can publish after Stop.
  \<^item> The MTR target (invariant \<open>mtr_inv\<close>):
    \<^item> summary keys persist along every run;
    \<^item> the summary map is shared with old result objects;
    \<^item> for every \<open>n\<close>, some reachable state has \<open>n\<close> overlapping cycles;
    \<^item> a nil trace crashes the process;
    \<^item> Stop returns.

  \<^bold>\<open>Bounds and fuel.\<close> No definition uses fuel.
  \<^item> The ping loop recurses on the remaining attempt count.
  \<^item> The goroutines are relations, so whether a target stops is stated as
    reachability: \<open>\<exists>t. step\<^sup>*\<^sup>* s t \<and> \<dots>\<close>.
  \<^item> Durations are unbounded integers. The sums are at most the count times the
    timeout, far below \<open>2^63\<close>.
  \<^item> The identifier counter is kept at its width of 16 bits, because its wrap-around is
    part of its contract.

  \<^bold>\<open>Not modelled.\<close>
  \<^item> The raw-socket transport (\<open>pkg/icmp\<close>) and the path discovery (\<open>pkg/mtr\<close>).
    They are parameters.
  \<^item> Logging and the JSON debug output. They change no state.
  \<^item> The text of \<open>PingString\<close> beyond its rtt line.
  \<^item> The float64 rounding of the drop rate. It is the exact real quotient, and the proved
    bounds also hold after rounding.
  \<^item> The address parsing of \<open>common.IsEqualIP\<close>. The comparison is string equality.
  \<^item> The error results of \<open>runPing\<close>, \<open>NewPing\<close> and \<open>NewMTR\<close>. They are always nil.
  \<^item> Wall-clock timing. The ticker and the timers are always ready, which allows every
    interleaving the code allows.
\<close>

end
